theory Spec2Isabelle
  imports Main "HOL-Library.Word"
begin

section \<open>Streaming chat over server-sent events, with a fixed-window rate limit\<close>

text \<open>
  A shallow embedding of the chat server (\<^verbatim>\<open>server/index.js\<close>) and of the React
  chat component (\<^verbatim>\<open>ChatBot\<close>). Time stamps are milliseconds since the epoch
  (\<^verbatim>\<open>Date.now()\<close>), JavaScript numbers that hold counters are integers, and a
  JavaScript string is the list of its code points.
\<close>

type_synonym jsstring = "nat list"
type_synonym ident = string
type_synonym millis = int

definition ascii :: "string \<Rightarrow> jsstring" where
  "ascii s = map of_char s"

subsection \<open>Rate limiter\<close>

text \<open>
  \<^verbatim>\<open>rateLimit({ windowMs, max, ... })\<close>: the options the source passes to the
  limiter.
\<close>

record limiter_options =
  windowMs :: millis
  maxHits :: int

definition chatOptions :: limiter_options where
  "chatOptions = \<lparr>windowMs = 60 * 1000, maxHits = 1\<rparr>"

definition statusOptions :: limiter_options where
  "statusOptions = \<lparr>windowMs = 60 * 1000, maxHits = 10\<rparr>"

text \<open>
  The value \<^verbatim>\<open>rateLimit(...)\<close> returns is the middleware function itself. The package
  gives it the methods \<^verbatim>\<open>resetKey\<close> and \<^verbatim>\<open>getKey\<close> and nothing else: it keeps
  its store and its options to itself, so \<^verbatim>\<open>chatLimiter.store\<close> and
  \<^verbatim>\<open>chatLimiter.options\<close> are \<^verbatim>\<open>undefined\<close> (\<open>None\<close>).
\<close>

datatype store_handle = LimiterStore

record limiter_middleware =
  store_property :: "store_handle option"
  options_property :: "limiter_options option"

definition chatLimiter :: limiter_middleware where
  "chatLimiter = \<lparr>store_property = None, options_property = None\<rparr>"

record RateLimitRecord =
  count :: int
  windowStart :: millis

type_synonym rate_store = "ident \<rightharpoonup> RateLimitRecord"

record Decision =
  allowed :: bool
  limit :: int
  remaining :: int
  resetAt :: millis

text \<open>
  The admission check of the rate-limit middleware is the package
  \<^verbatim>\<open>express-rate-limit\<close>'s, which is not among the sources; it is modelled from
  section 4.1 of the spec: load or
  create the record of the client; if \<open>now \<ge> windowStart + windowDuration\<close>, reset
  \<open>count = 0, windowStart = now\<close>; increment \<open>count\<close>; \<open>allowed = count \<le> max\<close>;
  \<open>remaining = max(0, max - count)\<close>; the updated record is stored under the client's
  identifier. The reset time of the decision is the end of the record's window.
\<close>

text \<open>Modelled from the spec: load or create the record for \<open>clientId\<close>.\<close>

definition load_or_create :: "rate_store \<Rightarrow> ident \<Rightarrow> millis \<Rightarrow> RateLimitRecord" where
  "load_or_create store clientId now =
     (case store clientId of
        None \<Rightarrow> \<lparr>count = 0, windowStart = now\<rparr>
      | Some r \<Rightarrow> r)"

text \<open>
  Modelled from the spec: if \<open>now \<ge> windowStart + windowDuration\<close>, reset
  \<open>count = 0, windowStart = now\<close>.
\<close>

definition roll_window :: "limiter_options \<Rightarrow> millis \<Rightarrow> RateLimitRecord \<Rightarrow> RateLimitRecord" where
  "roll_window opts now r =
     (if now \<ge> windowStart r + windowMs opts
      then \<lparr>count = 0, windowStart = now\<rparr>
      else r)"

text \<open>
  Modelled from the spec: the admission check, \<open>admit(clientId, now)\<close>, with the
  limiter's options and its store made explicit: the decision and the store afterwards.
\<close>

definition admit ::
  "limiter_options \<Rightarrow> rate_store \<Rightarrow> ident \<Rightarrow> millis \<Rightarrow> Decision \<times> rate_store" where
  "admit opts store clientId now =
     (let r = roll_window opts now (load_or_create store clientId now);
          r' = r\<lparr>count := count r + 1\<rparr>
      in (\<lparr>allowed = count r' \<le> maxHits opts,
           limit = maxHits opts,
           remaining = max 0 (maxHits opts - count r'),
           resetAt = windowStart r' + windowMs opts\<rparr>,
          store(clientId \<mapsto> r')))"

text \<open>
  Modelled from the spec: the store's read-only query, as the status endpoint would call
  it on a store it could reach (\<^verbatim>\<open>store.get(identifier, (err, hitCount) => ...)\<close>).
  The callback receives either an error or the client's record, if any, as
  \<^verbatim>\<open>{ totalHits, resetTime }\<close>.
\<close>

record ClientRateLimitInfo =
  totalHits :: int
  resetTime :: millis

datatype store_error = StoreUnavailable

definition store_get ::
  "limiter_options \<Rightarrow> bool \<Rightarrow> rate_store \<Rightarrow> ident \<Rightarrow> store_error + ClientRateLimitInfo option" where
  "store_get opts failing store clientId =
     (if failing then Inl StoreUnavailable
      else Inr (map_option
                  (\<lambda>r. \<lparr>totalHits = count r, resetTime = windowStart r + windowMs opts\<rparr>)
                  (store clientId)))"

subsection \<open>HTTP replies\<close>

text \<open>
  The four shapes of a server-sent event, \<^verbatim>\<open>type StreamResponse\<close> of the client:
  every field is optional. The server writes objects with exactly one field.
\<close>

record StreamResponse =
  sr_content :: "jsstring option"
  sr_finish_reason :: "jsstring option"
  sr_error :: "jsstring option"
  sr_done :: "bool option"

definition no_fields :: StreamResponse where
  "no_fields = \<lparr>sr_content = None, sr_finish_reason = None, sr_error = None, sr_done = None\<rparr>"

definition content_event :: "jsstring \<Rightarrow> StreamResponse" where
  "content_event c = no_fields\<lparr>sr_content := Some c\<rparr>"

definition finish_event :: "jsstring \<Rightarrow> StreamResponse" where
  "finish_event f = no_fields\<lparr>sr_finish_reason := Some f\<rparr>"

definition error_event :: "jsstring \<Rightarrow> StreamResponse" where
  "error_event m = no_fields\<lparr>sr_error := Some m\<rparr>"

definition done_event :: StreamResponse where
  "done_event = no_fields\<lparr>sr_done := Some True\<rparr>"

text \<open>A terminal event is a \<^verbatim>\<open>done\<close> or an \<^verbatim>\<open>error\<close> event.\<close>

definition is_terminal :: "StreamResponse \<Rightarrow> bool" where
  "is_terminal ev = (sr_done ev \<noteq> None \<or> sr_error ev \<noteq> None)"

text \<open>
  The response object \<^verbatim>\<open>res\<close> of a streaming request. \<^verbatim>\<open>res.write\<close> of the
  source always writes \<^verbatim>\<open>`data: ${JSON.stringify(obj)}\n\n`\<close>; the model records
  \<open>obj\<close>. A write on a response that has ended is not transmitted (Node refuses it
  with a write-after-end error): it is recorded apart, in \<open>refused\<close>.
  \<^verbatim>\<open>res.end()\<close> sets \<open>writableEnded\<close>; the handler never changes \<open>writable\<close>,
  which both of its guards read.
\<close>

record response_stream =
  writableEnded :: bool
  writable :: bool
  sent :: "StreamResponse list"
  refused :: "StreamResponse list"

definition fresh_res :: response_stream where
  "fresh_res = \<lparr>writableEnded = False, writable = True, sent = [], refused = []\<rparr>"

definition res_write :: "StreamResponse \<Rightarrow> response_stream \<Rightarrow> response_stream" where
  "res_write ev res =
     (if writableEnded res \<or> \<not> writable res
      then res\<lparr>refused := refused res @ [ev]\<rparr>
      else res\<lparr>sent := sent res @ [ev]\<rparr>)"

definition res_end :: "response_stream \<Rightarrow> response_stream" where
  "res_end res = res\<lparr>writableEnded := True\<rparr>"

record sse_headers =
  x_ratelimit_limit :: "int option"
  x_ratelimit_remaining :: "int option"
  x_ratelimit_reset :: "millis option"

text \<open>
  An exception that leaves a route is answered by Express's default error handler with
  status 500.
\<close>

datatype js_exception = TypeError

datatype reply =
    BadRequest jsstring
  | TooManyRequests jsstring int int millis millis
  | DefaultTooManyRequests
  | InternalError jsstring
  | Uncaught js_exception
  | RateLimitStatus bool int int millis
  | EventStream sse_headers response_stream

fun status_code :: "reply \<Rightarrow> nat" where
  "status_code (BadRequest _) = 400"
| "status_code (TooManyRequests _ _ _ _ _) = 429"
| "status_code DefaultTooManyRequests = 429"
| "status_code (InternalError _) = 500"
| "status_code (Uncaught _) = 500"
| "status_code (RateLimitStatus _ _ _ _) = 200"
| "status_code (EventStream _ _) = 200"

subsection \<open>Stream relay\<close>

text \<open>
  One chunk of the provider's stream, read as the handler reads it:
  \<^verbatim>\<open>chunk.choices?.[0]?.delta?.content\<close> and \<^verbatim>\<open>chunk.choices?.[0]?.finish_reason\<close>,
  each absent (\<open>None\<close>) or a string.
\<close>

record provider_chunk =
  delta_content :: "jsstring option"
  finish_reason :: "jsstring option"

text \<open>JavaScript truthiness of an optional string: present and not empty.\<close>

definition truthy :: "jsstring option \<Rightarrow> bool" where
  "truthy v = (case v of None \<Rightarrow> False | Some s \<Rightarrow> s \<noteq> [])"

text \<open>
  What happens while the handler awaits the provider: the next chunk arrives, or the
  request's \<^verbatim>\<open>close\<close> event fires and runs the registered listener
  \<^verbatim>\<open>onClientDisconnect\<close>. The stream then ends, or the provider throws
  (\<^verbatim>\<open>err.message\<close>, absent or a string).
\<close>

datatype upstream_step = Delta provider_chunk | ClientClose

datatype upstream_end = EndOfSequence | Failure "jsstring option"

definition onClientDisconnect :: "response_stream \<Rightarrow> response_stream" where
  "onClientDisconnect res = res_end res"

definition relay_chunk :: "provider_chunk \<Rightarrow> response_stream \<Rightarrow> response_stream" where
  "relay_chunk chunk res =
     (let res1 = (if truthy (delta_content chunk)
                  then res_write (content_event (the (delta_content chunk))) res
                  else res)
      in if truthy (finish_reason chunk)
         then res_write (finish_event (the (finish_reason chunk))) res1
         else res1)"

text \<open>
  The \<^verbatim>\<open>for await\<close> loop. The result says whether the loop left by \<^verbatim>\<open>break\<close>
  (\<open>True\<close>) or because the steps ran out (\<open>False\<close>).
\<close>

fun relay_loop :: "upstream_step list \<Rightarrow> response_stream \<Rightarrow> bool \<times> response_stream" where
  "relay_loop [] res = (False, res)"
| "relay_loop (ClientClose # steps) res = relay_loop steps (onClientDisconnect res)"
| "relay_loop (Delta chunk # steps) res =
     (if writableEnded res \<or> \<not> writable res then (True, res)
      else relay_loop steps (relay_chunk chunk res))"

definition finish_stream :: "response_stream \<Rightarrow> response_stream" where
  "finish_stream res = res_end (res_write done_event res)"

text \<open>\<^verbatim>\<open>err.message || "Unknown error"\<close>\<close>

definition error_message :: "jsstring option \<Rightarrow> jsstring" where
  "error_message msg = (if truthy msg then the msg else ascii ''Unknown error'')"

definition catch_upstream :: "jsstring option \<Rightarrow> response_stream \<Rightarrow> response_stream" where
  "catch_upstream msg res =
     (if writable res \<and> \<not> writableEnded res
      then res_end (res_write (error_event (error_message msg)) res)
      else res)"

definition relay :: "upstream_step list \<Rightarrow> upstream_end \<Rightarrow> response_stream \<Rightarrow> response_stream" where
  "relay steps ending res =
     (case relay_loop steps res of
        (True, res') \<Rightarrow> finish_stream res'
      | (False, res') \<Rightarrow>
          (case ending of
             EndOfSequence \<Rightarrow> finish_stream res'
           | Failure msg \<Rightarrow> catch_upstream msg res'))"

subsection \<open>The endpoints\<close>

record server =
  chatStore :: rate_store
  statusStore :: rate_store

text \<open>
  The \<^verbatim>\<open>messages\<close> field of a request body: missing (or another falsy value), a value
  that is not an array, or an array. The handler does not look at the elements.
\<close>

datatype 'm messages_field = Missing | NotArray | MessageArray "'m list"

fun invalid_messages :: "'m messages_field \<Rightarrow> bool" where
  "invalid_messages Missing = True"
| "invalid_messages NotArray = True"
| "invalid_messages (MessageArray ms) = (ms = [])"

text \<open>The \<^verbatim>\<open>handler\<close> option of \<^verbatim>\<open>chatLimiter\<close>, run in place of the route on a rejected request.\<close>

definition chat_limit_handler :: "Decision \<Rightarrow> millis \<Rightarrow> reply" where
  "chat_limit_handler d date_now =
     (let remainingMs = resetAt d - date_now
      in TooManyRequests (ascii ''Too many requests'') (limit d) (remaining d) (resetAt d)
           (if remainingMs > 0 then remainingMs else 60000))"

text \<open>The route of \<^verbatim>\<open>POST /chat-stream\<close>, run once the limiter has admitted the request.\<close>

definition chat_route ::
  "Decision \<Rightarrow> 'm messages_field \<Rightarrow> upstream_step list \<Rightarrow> upstream_end \<Rightarrow> reply" where
  "chat_route d msgs steps ending =
     (if invalid_messages msgs
      then BadRequest (ascii ''Invalid messages format'')
      else EventStream
             \<lparr>x_ratelimit_limit = Some (limit d),
              x_ratelimit_remaining = Some (remaining d),
              x_ratelimit_reset = Some (resetAt d)\<rparr>
             (relay steps ending fresh_res))"

text \<open>
  \<^verbatim>\<open>app.post("/chat-stream", chatLimiter, async (req, res) => ...)\<close>: the limiter
  is the first middleware of the route. \<open>now\<close> is the limiter's clock and
  \<open>date_now\<close> the later \<^verbatim>\<open>Date.now()\<close> of the rejection handler.
\<close>

definition post_chat_stream ::
  "server \<Rightarrow> ident \<Rightarrow> millis \<Rightarrow> millis \<Rightarrow> 'm messages_field \<Rightarrow> upstream_step list \<Rightarrow> upstream_end
     \<Rightarrow> reply \<times> server" where
  "post_chat_stream srv ip now date_now msgs steps ending =
     (case admit chatOptions (chatStore srv) ip now of
        (d, store') \<Rightarrow>
          (if allowed d
           then chat_route d msgs steps ending
           else chat_limit_handler d date_now,
           srv\<lparr>chatStore := store'\<rparr>))"

text \<open>
  The callback the route of \<^verbatim>\<open>GET /rate-limit-status\<close> passes to the store's
  lookup (lines 137 to 166). It reads \<^verbatim>\<open>chatLimiter.options.max\<close> and
  \<^verbatim>\<open>chatLimiter.options.windowMs\<close>; reading a field of \<^verbatim>\<open>undefined\<close> throws.
\<close>

definition status_route :: "store_error + ClientRateLimitInfo option \<Rightarrow> millis \<Rightarrow> reply" where
  "status_route looked_up date_now =
     (case looked_up of
        Inl err \<Rightarrow> InternalError (ascii ''Failed to retrieve rate limit status'')
      | Inr found \<Rightarrow>
          (case options_property chatLimiter of
             None \<Rightarrow> Uncaught TypeError
           | Some opts \<Rightarrow>
               (case found of
                  None \<Rightarrow>
                    RateLimitStatus False (maxHits opts) (maxHits opts) (date_now + windowMs opts)
                | Some hitCount \<Rightarrow>
                    (let left = max 0 (maxHits opts - totalHits hitCount)
                     in RateLimitStatus (left \<le> 0) (maxHits opts) left (resetTime hitCount)))))"

text \<open>
  \<^verbatim>\<open>app.get("/rate-limit-status", statusLimiter, (req, res) => ...)\<close>: the status
  limiter has a store of its own; a request it rejects gets the package's default 429
  reply. The route takes \<^verbatim>\<open>chatLimiter.store\<close> (line 131) and calls its
  \<^verbatim>\<open>get\<close> (line 137): on \<^verbatim>\<open>undefined\<close> the call throws a \<^verbatim>\<open>TypeError\<close>
  before any lookup is made. \<open>failing\<close> says whether the lookup of a store that is
  there reports an error.
\<close>

definition get_rate_limit_status ::
  "server \<Rightarrow> ident \<Rightarrow> millis \<Rightarrow> millis \<Rightarrow> bool \<Rightarrow> reply \<times> server" where
  "get_rate_limit_status srv ip now date_now failing =
     (case admit statusOptions (statusStore srv) ip now of
        (d, store') \<Rightarrow>
          (if allowed d
           then (case store_property chatLimiter of
                   None \<Rightarrow> Uncaught TypeError
                 | Some chatLimiterStore \<Rightarrow>
                     status_route (store_get chatOptions failing (chatStore srv) ip) date_now)
           else DefaultTooManyRequests,
           srv\<lparr>statusStore := store'\<rparr>))"

subsection \<open>JavaScript strings and the platform's decoder\<close>

text \<open>\<^verbatim>\<open>chunk.split("\n\n")\<close>: the pieces between the occurrences of two line feeds, found left to right.\<close>

fun split_nn :: "jsstring \<Rightarrow> jsstring list" where
  "split_nn [] = [[]]"
| "split_nn [x] = [[x]]"
| "split_nn (x # y # zs) =
     (if x = 10 \<and> y = 10 then [] # split_nn zs
      else (case split_nn (y # zs) of
              [] \<Rightarrow> [[x]]
            | piece # pieces \<Rightarrow> (x # piece) # pieces))"

definition startsWith :: "jsstring \<Rightarrow> jsstring \<Rightarrow> bool" where
  "startsWith s pre = (take (length pre) s = pre)"

definition data_prefix :: jsstring where
  "data_prefix = ascii ''data: ''"

text \<open>\<^verbatim>\<open>line.replace(/^data: /, "")\<close>\<close>

definition strip_data_prefix :: "jsstring \<Rightarrow> jsstring" where
  "strip_data_prefix line =
     (if startsWith line data_prefix then drop (length data_prefix) line else line)"

text \<open>
  \<^verbatim>\<open>String.prototype.trim\<close> removes the white space and line terminators of
  ECMAScript from both ends.
\<close>

definition js_space :: "nat \<Rightarrow> bool" where
  "js_space c =
     (c \<in> {9, 10, 11, 12, 13, 32, 160, 5760, 8232, 8233, 8239, 8287, 12288, 65279}
      \<or> (8192 \<le> c \<and> c \<le> 8202))"

definition trim :: "jsstring \<Rightarrow> jsstring" where
  "trim s = rev (dropWhile js_space (rev (dropWhile js_space s)))"

text \<open>Decimal digits of a number, as a template literal prints it.\<close>

fun decimal :: "nat \<Rightarrow> jsstring" where
  "decimal n = (if n < 10 then [48 + n] else decimal (n div 10) @ [48 + n mod 10])"

declare decimal.simps [simp del]

text \<open>
  \<^verbatim>\<open>new TextDecoder("utf-8")\<close>, after the UTF-8 decoder of the WHATWG Encoding
  Standard: the code point under construction, the bytes seen and needed, and the bounds
  of the next byte. A malformed sequence yields U+FFFD and the offending byte is read
  again as the start of a sequence.
\<close>

type_synonym byte = "8 word"

record utf8_decoder =
  code_point :: nat
  bytes_seen :: nat
  bytes_needed :: nat
  lower_boundary :: nat
  upper_boundary :: nat

definition utf8_initial :: utf8_decoder where
  "utf8_initial =
     \<lparr>code_point = 0, bytes_seen = 0, bytes_needed = 0,
      lower_boundary = 128, upper_boundary = 191\<rparr>"

definition replacement_char :: nat where
  "replacement_char = 65533"

definition utf8_lead :: "nat \<Rightarrow> nat list \<times> utf8_decoder" where
  "utf8_lead b =
     (if b \<le> 127 then ([b], utf8_initial)
      else if 194 \<le> b \<and> b \<le> 223
        then ([], utf8_initial\<lparr>bytes_needed := 1, code_point := b mod 32\<rparr>)
      else if 224 \<le> b \<and> b \<le> 239
        then ([], utf8_initial
                    \<lparr>lower_boundary := (if b = 224 then 160 else 128),
                     upper_boundary := (if b = 237 then 159 else 191),
                     bytes_needed := 2, code_point := b mod 16\<rparr>)
      else if 240 \<le> b \<and> b \<le> 244
        then ([], utf8_initial
                    \<lparr>lower_boundary := (if b = 240 then 144 else 128),
                     upper_boundary := (if b = 244 then 143 else 191),
                     bytes_needed := 3, code_point := b mod 8\<rparr>)
      else ([replacement_char], utf8_initial))"

definition utf8_handler :: "utf8_decoder \<Rightarrow> nat \<Rightarrow> nat list \<times> utf8_decoder" where
  "utf8_handler d b =
     (if bytes_needed d = 0 then utf8_lead b
      else if b < lower_boundary d \<or> upper_boundary d < b
        then (case utf8_lead b of (out, d') \<Rightarrow> (replacement_char # out, d'))
      else
        (let cp = code_point d * 64 + b mod 64;
             seen = bytes_seen d + 1
         in if seen \<noteq> bytes_needed d
            then ([], d\<lparr>lower_boundary := 128, upper_boundary := 191,
                        code_point := cp, bytes_seen := seen\<rparr>)
            else ([cp], utf8_initial)))"

fun utf8_run :: "utf8_decoder \<Rightarrow> byte list \<Rightarrow> nat list \<times> utf8_decoder" where
  "utf8_run d [] = ([], d)"
| "utf8_run d (b # bs) =
     (case utf8_handler d (unat b) of
        (out, d') \<Rightarrow> (case utf8_run d' bs of (rest, d'') \<Rightarrow> (out @ rest, d'')))"

definition strip_bom :: "jsstring \<Rightarrow> jsstring" where
  "strip_bom s = (case s of [] \<Rightarrow> [] | c # cs \<Rightarrow> if c = 65279 then cs else s)"

text \<open>
  \<^verbatim>\<open>decoder.decode(value)\<close>, without the \<^verbatim>\<open>stream\<close> option: the decoder starts
  afresh on every call, and a sequence left incomplete at the end of the input yields
  U+FFFD.
\<close>

definition decode :: "byte list \<Rightarrow> jsstring" where
  "decode bytes =
     (case utf8_run utf8_initial bytes of
        (out, d) \<Rightarrow> strip_bom (if bytes_needed d \<noteq> 0 then out @ [replacement_char] else out))"

text \<open>
  \<^verbatim>\<open>decoder.decode(value, { stream: true })\<close>, which the source does not call: the
  decoder's state is carried to the next call. It is the reference the source's
  decoding is compared with.
\<close>

definition decode_stream :: "utf8_decoder \<Rightarrow> byte list \<Rightarrow> jsstring \<times> utf8_decoder" where
  "decode_stream d bytes = utf8_run d bytes"

subsection \<open>The platform's JSON codec on stream events\<close>

text \<open>
  \<^verbatim>\<open>JSON.stringify\<close> on the objects the server writes: the members present, in the
  order of their insertion, strings quoted as ECMAScript's \<^verbatim>\<open>QuoteJSONString\<close> does
  (a lone surrogate is a code point from 55296 to 57343).
\<close>

definition hex_digit :: "nat \<Rightarrow> nat" where
  "hex_digit d = (if d < 10 then 48 + d else 87 + d)"

definition hex4 :: "nat \<Rightarrow> jsstring" where
  "hex4 n = [hex_digit (n div 4096 mod 16), hex_digit (n div 256 mod 16),
             hex_digit (n div 16 mod 16), hex_digit (n mod 16)]"

definition quote_char :: "nat \<Rightarrow> jsstring" where
  "quote_char c =
     (if c = 8 then [92, 98]
      else if c = 9 then [92, 116]
      else if c = 10 then [92, 110]
      else if c = 12 then [92, 102]
      else if c = 13 then [92, 114]
      else if c = 34 then [92, 34]
      else if c = 92 then [92, 92]
      else if c < 32 \<or> (55296 \<le> c \<and> c \<le> 57343) then [92, 117] @ hex4 c
      else [c])"

definition QuoteJSONString :: "jsstring \<Rightarrow> jsstring" where
  "QuoteJSONString s = [34] @ concat (map quote_char s) @ [34]"

definition member_text :: "string \<Rightarrow> jsstring \<Rightarrow> jsstring" where
  "member_text name v = QuoteJSONString (ascii name) @ [58] @ v"

fun join_comma :: "jsstring list \<Rightarrow> jsstring" where
  "join_comma [] = []"
| "join_comma [m] = m"
| "join_comma (m # ms) = m @ [44] @ join_comma ms"

definition JSON_stringify :: "StreamResponse \<Rightarrow> jsstring" where
  "JSON_stringify ev =
     [123] @
     join_comma
       ((case sr_content ev of None \<Rightarrow> [] | Some s \<Rightarrow> [member_text ''content'' (QuoteJSONString s)]) @
        (case sr_finish_reason ev of None \<Rightarrow> []
         | Some s \<Rightarrow> [member_text ''finish_reason'' (QuoteJSONString s)]) @
        (case sr_error ev of None \<Rightarrow> [] | Some s \<Rightarrow> [member_text ''error'' (QuoteJSONString s)]) @
        (case sr_done ev of None \<Rightarrow> []
         | Some b \<Rightarrow> [member_text ''done'' (ascii (if b then ''true'' else ''false''))])) @
     [125]"

text \<open>
  \<^verbatim>\<open>JSON.parse\<close>, read at the type \<^verbatim>\<open>StreamResponse\<close>: the tokens of the text,
  then the members of the object. \<open>None\<close> is a text on which the source's \<^verbatim>\<open>try\<close>
  block throws: a syntax error, or \<^verbatim>\<open>null\<close>, whose fields cannot be read. A member
  with a value outside the type (a number, an array, an object, or a value of the
  wrong kind for a known field) is reported as a failure too: the model does not follow
  JavaScript's coercions. An escaped surrogate is kept as it stands.
\<close>

datatype json_token = LBrace | RBrace | Colon | Comma | TString jsstring | TTrue | TFalse | TNull

definition unhex :: "nat \<Rightarrow> nat option" where
  "unhex c =
     (if 48 \<le> c \<and> c \<le> 57 then Some (c - 48)
      else if 97 \<le> c \<and> c \<le> 102 then Some (c - 87)
      else if 65 \<le> c \<and> c \<le> 70 then Some (c - 55)
      else None)"

definition unhex4 :: "nat \<Rightarrow> nat \<Rightarrow> nat \<Rightarrow> nat \<Rightarrow> nat option" where
  "unhex4 a b c d =
     (case (unhex a, unhex b, unhex c, unhex d) of
        (Some w, Some x, Some y, Some z) \<Rightarrow> Some (w * 4096 + x * 256 + y * 16 + z)
      | _ \<Rightarrow> None)"

definition unescape :: "nat \<Rightarrow> nat option" where
  "unescape e =
     (if e = 34 \<or> e = 92 \<or> e = 47 then Some e
      else if e = 98 then Some 8
      else if e = 102 then Some 12
      else if e = 110 then Some 10
      else if e = 114 then Some 13
      else if e = 116 then Some 9
      else None)"

definition cons_string :: "nat \<Rightarrow> (jsstring \<times> jsstring) option \<Rightarrow> (jsstring \<times> jsstring) option" where
  "cons_string c r = map_option (\<lambda>(s, rest). (c # s, rest)) r"

definition lex_escape :: "jsstring \<Rightarrow> (nat \<times> jsstring) option" where
  "lex_escape cs =
     (case cs of
        [] \<Rightarrow> None
      | e # r \<Rightarrow>
          if e = 117
          then (case r of
                  h1 # h2 # h3 # h4 # r' \<Rightarrow> map_option (\<lambda>n. (n, r')) (unhex4 h1 h2 h3 h4)
                | _ \<Rightarrow> None)
          else map_option (\<lambda>ch. (ch, r)) (unescape e))"

lemma lex_escape_length: "lex_escape cs = Some (ch, r) \<Longrightarrow> length r < length cs"
  by (auto simp: lex_escape_def split: list.splits if_splits)

function lex_string :: "jsstring \<Rightarrow> (jsstring \<times> jsstring) option" where
  "lex_string [] = None"
| "lex_string (c # cs) =
     (if c = 34 then Some ([], cs)
      else if c < 32 then None
      else if c \<noteq> 92 then cons_string c (lex_string cs)
      else (case lex_escape cs of
              None \<Rightarrow> None
            | Some (ch, r) \<Rightarrow> cons_string ch (lex_string r)))"
  by pat_completeness auto
termination
proof (relation "measure length", goal_cases)
  case (3 c cs x2 ch r)
  then have "lex_escape cs = Some (ch, r)" by simp
  from lex_escape_length[OF this] show ?case by simp
qed simp_all

lemma cons_string_Some:
  "cons_string c r = Some (s, rest) \<longleftrightarrow> (\<exists>s'. r = Some (s', rest) \<and> s = c # s')"
  by (cases r) (auto simp: cons_string_def)

lemma lex_string_length: "lex_string cs = Some (s, r) \<Longrightarrow> length r < length cs"
proof (induction cs arbitrary: s r rule: lex_string.induct)
  case 1
  then show ?case by simp
next
  case (2 c cs)
  show ?case
  proof (cases "c = 34 \<or> c < 32")
    case True
    with "2.prems" show ?thesis by (auto split: if_splits)
  next
    case plain: False
    show ?thesis
    proof (cases "c = 92")
      case False
      with plain "2.prems" obtain s' where "lex_string cs = Some (s', r)"
        by (auto simp: cons_string_Some)
      with "2.IH"(1)[of s' r] plain False show ?thesis by simp
    next
      case True
      with plain "2.prems" obtain ch t s' where
        e: "lex_escape cs = Some (ch, t)" and l: "lex_string t = Some (s', r)"
        by (auto simp: cons_string_Some split: option.splits)
      from "2.IH"(2)[of "(ch, t)" ch t s' r] plain True e l have "length r < length t" by simp
      with lex_escape_length[OF e] show ?thesis by simp
    qed
  qed
qed

function lex :: "jsstring \<Rightarrow> json_token list option" where
  "lex [] = Some []"
| "lex (c # cs) =
     (if c = 32 \<or> c = 9 \<or> c = 10 \<or> c = 13 then lex cs
      else if c = 123 then map_option ((#) LBrace) (lex cs)
      else if c = 125 then map_option ((#) RBrace) (lex cs)
      else if c = 58 then map_option ((#) Colon) (lex cs)
      else if c = 44 then map_option ((#) Comma) (lex cs)
      else if c = 34
        then (case lex_string cs of
                None \<Rightarrow> None
              | Some (s, r) \<Rightarrow> map_option ((#) (TString s)) (lex r))
      else if take 4 (c # cs) = ascii ''true'' then map_option ((#) TTrue) (lex (drop 3 cs))
      else if take 5 (c # cs) = ascii ''false'' then map_option ((#) TFalse) (lex (drop 4 cs))
      else if take 4 (c # cs) = ascii ''null'' then map_option ((#) TNull) (lex (drop 3 cs))
      else None)"
  by pat_completeness auto
termination
proof (relation "measure length", goal_cases)
  case (7 c cs x2 s r)
  then have "lex_string cs = Some (s, r)" by simp
  from lex_string_length[OF this] show ?case by simp
qed simp_all


definition put_member :: "jsstring \<Rightarrow> json_token \<Rightarrow> StreamResponse \<Rightarrow> StreamResponse option" where
  "put_member k v acc =
     (if k = ascii ''done''
      then (case v of
              TTrue \<Rightarrow> Some (acc\<lparr>sr_done := Some True\<rparr>)
            | TFalse \<Rightarrow> Some (acc\<lparr>sr_done := Some False\<rparr>)
            | TNull \<Rightarrow> Some (acc\<lparr>sr_done := None\<rparr>)
            | _ \<Rightarrow> None)
      else if k = ascii ''content'' \<or> k = ascii ''finish_reason'' \<or> k = ascii ''error''
      then (case (case v of TString s \<Rightarrow> Some (Some s) | TNull \<Rightarrow> Some None | _ \<Rightarrow> None) of
              None \<Rightarrow> None
            | Some f \<Rightarrow>
                Some (if k = ascii ''content'' then acc\<lparr>sr_content := f\<rparr>
                      else if k = ascii ''finish_reason'' then acc\<lparr>sr_finish_reason := f\<rparr>
                      else acc\<lparr>sr_error := f\<rparr>))
      else (case v of
              TString s \<Rightarrow> Some acc | TTrue \<Rightarrow> Some acc | TFalse \<Rightarrow> Some acc | TNull \<Rightarrow> Some acc
            | _ \<Rightarrow> None))"

fun parse_members :: "json_token list \<Rightarrow> StreamResponse \<Rightarrow> StreamResponse option" where
  "parse_members (TString k # Colon # v # rest) acc =
     (case put_member k v acc of
        None \<Rightarrow> None
      | Some acc' \<Rightarrow>
          (case rest of
             [RBrace] \<Rightarrow> Some acc'
           | Comma # others \<Rightarrow> parse_members others acc'
           | _ \<Rightarrow> None))"
| "parse_members _ acc = None"

definition JSON_parse :: "jsstring \<Rightarrow> StreamResponse option" where
  "JSON_parse txt =
     (case lex txt of
        None \<Rightarrow> None
      | Some [LBrace, RBrace] \<Rightarrow> Some no_fields
      | Some (LBrace # members) \<Rightarrow> parse_members members no_fields
      | Some [TString s] \<Rightarrow> Some no_fields
      | Some [TTrue] \<Rightarrow> Some no_fields
      | Some [TFalse] \<Rightarrow> Some no_fields
      | Some _ \<Rightarrow> None)"

text \<open>The text of a write, \<^verbatim>\<open>`data: ${JSON.stringify(obj)}\n\n`\<close>, and of a sequence of writes.\<close>

definition sse_frame :: "StreamResponse \<Rightarrow> jsstring" where
  "sse_frame ev = data_prefix @ JSON_stringify ev @ [10, 10]"

definition wire_text :: "StreamResponse list \<Rightarrow> jsstring" where
  "wire_text evs = concat (map sse_frame evs)"

subsection \<open>Chat session controller\<close>

datatype role = User | Assistant | System

record ChatMessage =
  role :: role
  content :: jsstring

record RateLimitInfo =
  rl_limit :: int
  rl_remaining :: int
  rl_reset :: "millis option"
  rl_isLimited :: bool

text \<open>The component's state (\<^verbatim>\<open>useState\<close>).\<close>

record ChatBot =
  messages :: "ChatMessage list"
  input :: jsstring
  isTyping :: bool
  rateLimit :: RateLimitInfo
  error :: "jsstring option"

definition initial_ChatBot :: ChatBot where
  "initial_ChatBot =
     \<lparr>messages = [], input = [], isTyping = False,
      rateLimit = \<lparr>rl_limit = 1, rl_remaining = 1, rl_reset = None, rl_isLimited = False\<rparr>,
      error = None\<rparr>"

definition isRateLimited :: "ChatBot \<Rightarrow> bool" where
  "isRateLimited st = (rl_isLimited (rateLimit st) \<or> rl_remaining (rateLimit st) \<le> 0)"

text \<open>The \<^verbatim>\<open>disabled\<close> attributes of the input field and of the send button.\<close>

definition input_disabled :: "ChatBot \<Rightarrow> bool" where
  "input_disabled st = (isTyping st \<or> isRateLimited st)"

definition button_disabled :: "ChatBot \<Rightarrow> bool" where
  "button_disabled st = (isTyping st \<or> isRateLimited st \<or> trim (input st) = [])"

text \<open>
  What \<^verbatim>\<open>fetch\<close> gives back. A thrown value is an \<^verbatim>\<open>Error\<close> with its message,
  or something else (\<open>None\<close>). The reader of the body yields byte chunks and then
  reports the end of the stream or fails. \<open>json_error\<close> is what
  \<^verbatim>\<open>response.json()\<close> gives on a 429: it throws, or the body's \<^verbatim>\<open>error\<close> field
  as the template literal prints it. The headers are read as numbers and dates, \<open>None\<close> for a
  header that is absent or does not parse.
\<close>

datatype reader_end = StreamClosed | ReadFails "jsstring option"

record response =
  status :: nat
  header_limit :: "int option"
  header_remaining :: "int option"
  header_reset :: "millis option"
  json_error :: "jsstring option + jsstring"
  body_reader :: "(byte list list \<times> reader_end) option"

datatype fetch_result = Rejected "jsstring option" | Resolved response

text \<open>The variables of the read loop, with the state it updates.\<close>

record stream_state =
  ss_messages :: "ChatMessage list"
  ss_error :: "jsstring option"
  assistantMessage :: jsstring
  responseFinished :: bool

text \<open>
  The body of the \<^verbatim>\<open>for\<close> loop over the lines of a chunk, once the line is parsed:
  the three \<^verbatim>\<open>if\<close> statements in the order of the source.
\<close>

definition handle_data :: "StreamResponse \<Rightarrow> stream_state \<Rightarrow> stream_state" where
  "handle_data d st =
     (let st1 = (if truthy (sr_content d)
                 then st\<lparr>assistantMessage := assistantMessage st @ the (sr_content d),
                         ss_messages := butlast (ss_messages st) @
                           [\<lparr>role = Assistant,
                             content = assistantMessage st @ the (sr_content d)\<rparr>]\<rparr>
                 else st);
          st2 = (if truthy (sr_finish_reason d) \<or> sr_done d = Some True
                 then st1\<lparr>responseFinished := True\<rparr>
                 else st1)
      in if truthy (sr_error d)
         then st2\<lparr>ss_error := Some (ascii ''Error: '' @ the (sr_error d)),
                  responseFinished := True\<rparr>
         else st2)"

text \<open>
  \<open>parse\<close> stands for \<^verbatim>\<open>JSON.parse\<close>, typed as the source's annotation
  \<^verbatim>\<open>const data: StreamResponse\<close> says; \<open>None\<close> is a text on which the
  \<^verbatim>\<open>try\<close> block throws, which the \<^verbatim>\<open>catch\<close> inside the loop only logs.
\<close>

definition handle_line ::
  "(jsstring \<Rightarrow> StreamResponse option) \<Rightarrow> stream_state \<Rightarrow> jsstring \<Rightarrow> stream_state" where
  "handle_line parse st line =
     (case parse (strip_data_prefix line) of
        None \<Rightarrow> st
      | Some d \<Rightarrow> handle_data d st)"

definition chunk_lines :: "byte list \<Rightarrow> jsstring list" where
  "chunk_lines bytes = filter (\<lambda>line. startsWith line data_prefix) (split_nn (decode bytes))"

definition handle_chunk ::
  "(jsstring \<Rightarrow> StreamResponse option) \<Rightarrow> byte list \<Rightarrow> stream_state \<Rightarrow> stream_state" where
  "handle_chunk parse bytes st = foldl (handle_line parse) st (chunk_lines bytes)"

text \<open>
  The \<^verbatim>\<open>while (!responseFinished)\<close> loop: the first component is the value thrown by
  \<^verbatim>\<open>reader.read()\<close>, if it fails.
\<close>

fun read_loop ::
  "(jsstring \<Rightarrow> StreamResponse option) \<Rightarrow> byte list list \<Rightarrow> reader_end \<Rightarrow> stream_state
     \<Rightarrow> jsstring option option \<times> stream_state" where
  "read_loop parse [] ending st =
     (if responseFinished st then (None, st)
      else (case ending of
              StreamClosed \<Rightarrow> (None, st\<lparr>responseFinished := True\<rparr>)
            | ReadFails e \<Rightarrow> (Some e, st)))"
| "read_loop parse (bytes # chunks) ending st =
     (if responseFinished st then (None, st)
      else read_loop parse chunks ending (handle_chunk parse bytes st))"

text \<open>The \<^verbatim>\<open>catch\<close> block: \<open>updatedMessages\<close> is the conversation with the user's message.\<close>

definition catch_block :: "ChatMessage list \<Rightarrow> jsstring option \<Rightarrow> ChatBot \<Rightarrow> ChatBot" where
  "catch_block updatedMessages err st =
     st\<lparr>error := Some (ascii ''Error: '' @
                       (case err of Some m \<Rightarrow> m | None \<Rightarrow> ascii ''Unknown error'')),
        messages := updatedMessages\<rparr>"

definition read_body ::
  "(jsstring \<Rightarrow> StreamResponse option) \<Rightarrow> ChatMessage list \<Rightarrow> response \<Rightarrow> ChatBot \<Rightarrow> ChatBot" where
  "read_body parse updatedMessages r st =
     (case body_reader r of
        None \<Rightarrow> catch_block updatedMessages (Some (ascii ''Failed to get response reader'')) st
      | Some (chunks, ending) \<Rightarrow>
          (case read_loop parse chunks ending
                  \<lparr>ss_messages = messages st, ss_error = error st,
                   assistantMessage = [], responseFinished = False\<rparr> of
             (thrown, ss) \<Rightarrow>
               (let st' = st\<lparr>messages := ss_messages ss, error := ss_error ss\<rparr>
                in case thrown of
                     None \<Rightarrow> st'
                   | Some e \<Rightarrow> catch_block updatedMessages e st')))"

definition on_response ::
  "(jsstring \<Rightarrow> StreamResponse option) \<Rightarrow> ChatMessage list \<Rightarrow> response \<Rightarrow> ChatBot \<Rightarrow> ChatBot" where
  "on_response parse updatedMessages r st =
     (let st1 = st\<lparr>rateLimit :=
                  \<lparr>rl_limit = (case header_limit r of None \<Rightarrow> 0 | Some n \<Rightarrow> n),
                   rl_remaining = (case header_remaining r of None \<Rightarrow> 0 | Some n \<Rightarrow> n),
                   rl_reset = header_reset r,
                   rl_isLimited = (status r = 429)\<rparr>\<rparr>
      in if status r = 429
         then (case json_error r of
                 Inl e \<Rightarrow> catch_block updatedMessages e st1
               | Inr msg \<Rightarrow>
                   st1\<lparr>error := Some (ascii ''Rate limited: '' @ msg @ ascii ''. Try again later.''),
                       messages := updatedMessages,
                       isTyping := False\<rparr>)
         else if \<not> (200 \<le> status r \<and> status r \<le> 299)
         then catch_block updatedMessages (Some (ascii ''Server error: '' @ decimal (status r))) st1
         else read_body parse updatedMessages r st1)"

text \<open>
  \<^verbatim>\<open>sendMessage\<close>. \<open>fetch\<close> answers the request whose body is the conversation sent.
  The result is the state afterwards and the request issued, if any.
\<close>

definition sendMessage ::
  "(jsstring \<Rightarrow> StreamResponse option) \<Rightarrow> (ChatMessage list \<Rightarrow> fetch_result) \<Rightarrow> ChatBot
     \<Rightarrow> ChatBot \<times> ChatMessage list option" where
  "sendMessage parse fetch st =
     (if trim (input st) = [] \<or> isTyping st \<or> isRateLimited st then (st, None)
      else
        (let userMessage = \<lparr>role = User, content = trim (input st)\<rparr>;
             updatedMessages = messages st @ [userMessage];
             st1 = st\<lparr>messages := updatedMessages @ [\<lparr>role = Assistant, content = []\<rparr>],
                      input := [], isTyping := True, error := None\<rparr>;
             st2 = (case fetch updatedMessages of
                      Rejected e \<Rightarrow> catch_block updatedMessages e st1
                    | Resolved r \<Rightarrow> on_response parse updatedMessages r st1)
         in (st2\<lparr>isTyping := False\<rparr>, Some updatedMessages)))"

text \<open>
  The terminal state of a send, in the words of the spec's state machine, read off the
  component afterwards: nothing was sent, the reply was a 429, an error message is
  shown, or none of these.
\<close>

datatype controller_state = Idle | Completed | Errored | RateLimited

definition terminal_state :: "ChatBot \<times> ChatMessage list option \<Rightarrow> controller_state" where
  "terminal_state outcome =
     (case snd outcome of
        None \<Rightarrow> Idle
      | Some request \<Rightarrow>
          if rl_isLimited (rateLimit (fst outcome)) then RateLimited
          else if error (fst outcome) \<noteq> None then Errored
          else Completed)"

subsection \<open>Runs of requests\<close>

text \<open>Admission checks of one client, one after the other, at the given times.\<close>

fun admit_seq :: "limiter_options \<Rightarrow> rate_store \<Rightarrow> ident \<Rightarrow> millis list \<Rightarrow> Decision list" where
  "admit_seq opts store clientId [] = []"
| "admit_seq opts store clientId (now # later) =
     (case admit opts store clientId now of
        (d, store') \<Rightarrow> d # admit_seq opts store' clientId later)"

definition count_of :: "rate_store \<Rightarrow> ident \<Rightarrow> int" where
  "count_of store clientId = (case store clientId of None \<Rightarrow> 0 | Some r \<Rightarrow> count r)"

text \<open>The client has a record whose window has not elapsed at \<open>now\<close>.\<close>

definition window_open_at :: "limiter_options \<Rightarrow> rate_store \<Rightarrow> ident \<Rightarrow> millis \<Rightarrow> bool" where
  "window_open_at opts store clientId now =
     (case store clientId of
        None \<Rightarrow> False
      | Some r \<Rightarrow> now < windowStart r + windowMs opts)"

text \<open>
  Calls of \<^verbatim>\<open>GET /rate-limit-status\<close>, one after the other: each is the caller's
  address, the two clock readings and whether the store's lookup fails.
\<close>

fun status_calls :: "server \<Rightarrow> (ident \<times> millis \<times> millis \<times> bool) list \<Rightarrow> server" where
  "status_calls srv [] = srv"
| "status_calls srv ((ip, now, date_now, failing) # calls) =
     status_calls (snd (get_rate_limit_status srv ip now date_now failing)) calls"

definition empty_server :: server where
  "empty_server = \<lparr>chatStore = Map.empty, statusStore = Map.empty\<rparr>"

subsection \<open>The transport\<close>

text \<open>
  \<^verbatim>\<open>res.write\<close> sends a string as UTF-8 (a lone surrogate as U+FFFD). The reader of
  the client yields the bytes in chunks of the transport's choosing.
\<close>

definition utf8_encode_cp :: "nat \<Rightarrow> byte list" where
  "utf8_encode_cp c =
     (if c < 128 then [of_nat c]
      else if c < 2048 then [of_nat (192 + c div 64), of_nat (128 + c mod 64)]
      else if 55296 \<le> c \<and> c \<le> 57343 then [239, 191, 189]
      else if c < 65536
        then [of_nat (224 + c div 4096), of_nat (128 + c div 64 mod 64), of_nat (128 + c mod 64)]
      else [of_nat (240 + c div 262144), of_nat (128 + c div 4096 mod 64),
            of_nat (128 + c div 64 mod 64), of_nat (128 + c mod 64)])"

definition utf8_encode :: "jsstring \<Rightarrow> byte list" where
  "utf8_encode s = concat (map utf8_encode_cp s)"

text \<open>The events a chunk of the provider makes the relay write, and the non-empty text deltas of a stream.\<close>

definition chunk_events :: "provider_chunk \<Rightarrow> StreamResponse list" where
  "chunk_events chunk =
     (if truthy (delta_content chunk) then [content_event (the (delta_content chunk))] else []) @
     (if truthy (finish_reason chunk) then [finish_event (the (finish_reason chunk))] else [])"

definition delta_texts :: "provider_chunk list \<Rightarrow> jsstring list" where
  "delta_texts deltas = map (\<lambda>c. the (delta_content c)) (filter (\<lambda>c. truthy (delta_content c)) deltas)"

definition carries_content :: "StreamResponse \<Rightarrow> bool" where
  "carries_content ev = (sr_content ev \<noteq> None)"

text \<open>
  The events of a chunk handled in order, the texts they carry, and the events that end
  the read loop. \<open>quiet_after f evs\<close>: no event of \<open>evs\<close> carries text once the loop
  is to end (\<open>f\<close>, or an earlier event of \<open>evs\<close> that ends it).
\<close>

definition handle_events :: "StreamResponse list \<Rightarrow> stream_state \<Rightarrow> stream_state" where
  "handle_events evs st = foldl (\<lambda>s e. handle_data e s) st evs"

definition event_texts :: "StreamResponse list \<Rightarrow> jsstring list" where
  "event_texts evs = map (\<lambda>e. the (sr_content e)) (filter (\<lambda>e. truthy (sr_content e)) evs)"

definition finishing :: "StreamResponse \<Rightarrow> bool" where
  "finishing e = (truthy (sr_finish_reason e) \<or> sr_done e = Some True)"

fun quiet_after :: "bool \<Rightarrow> StreamResponse list \<Rightarrow> bool" where
  "quiet_after f [] = True"
| "quiet_after f (e # es) = ((f \<longrightarrow> \<not> truthy (sr_content e)) \<and> quiet_after (f \<or> finishing e) es)"

subsection \<open>Sample runs\<close>

text \<open>
  A component ready to send \<open>hi\<close>, a 200 reply whose body arrives in the given chunks,
  the stream of a one-character reply \<open>U+00E9\<close>, and a provider that says \<open>Hel\<close>,
  \<open>lo\<close> and stops.
\<close>

definition ready_ChatBot :: ChatBot where
  "ready_ChatBot = initial_ChatBot\<lparr>input := ascii ''hi''\<rparr>"

definition stream_reply :: "byte list list \<Rightarrow> fetch_result" where
  "stream_reply chunks =
     Resolved \<lparr>status = 200, header_limit = Some 1, header_remaining = Some 0,
               header_reset = Some 60000, json_error = Inl None,
               body_reader = Some (chunks, StreamClosed)\<rparr>"

definition accented_stream :: "byte list" where
  "accented_stream = utf8_encode (wire_text [content_event [233], done_event])"

definition hello_deltas :: "provider_chunk list" where
  "hello_deltas =
     [\<lparr>delta_content = Some (ascii ''Hel''), finish_reason = None\<rparr>,
      \<lparr>delta_content = Some (ascii ''lo''), finish_reason = Some (ascii ''stop'')\<rparr>]"

definition hello_events :: "StreamResponse list" where
  "hello_events = sent (relay (map Delta hello_deltas) EndOfSequence fresh_res)"

definition hello_stream :: "byte list" where
  "hello_stream = utf8_encode (wire_text hello_events)"

lemmas relay_defs = relay_def relay_chunk_def finish_stream_def onClientDisconnect_def res_write_def
  res_end_def fresh_res_def

lemmas json_defs = JSON_stringify_def member_text_def QuoteJSONString_def quote_char_def ascii_def
  hex4_def hex_digit_def JSON_parse_def put_member_def cons_string_def lex_escape_def unhex4_def unhex_def unescape_def
  content_event_def done_event_def no_fields_def error_event_def finish_event_def

lemmas utf8_defs = utf8_encode_def utf8_encode_cp_def decode_def utf8_handler_def utf8_lead_def
  utf8_initial_def replacement_char_def strip_bom_def

lemmas client_defs = sendMessage_def on_response_def read_body_def catch_block_def handle_chunk_def
  chunk_lines_def handle_line_def handle_data_def strip_data_prefix_def startsWith_def
  data_prefix_def isRateLimited_def trim_def js_space_def truthy_def stream_reply_def
  ready_ChatBot_def initial_ChatBot_def sse_frame_def wire_text_def Let_def

section \<open>Properties of the rate limiter and of the endpoints\<close>

lemma admit_count:
  "count_of (snd (admit opts store cid now)) cid =
     (if window_open_at opts store cid now then count_of store cid + 1 else 1)"
  by (auto simp: admit_def Let_def count_of_def window_open_at_def load_or_create_def
        roll_window_def split: option.splits)

lemma admit_decision:
  "fst (admit opts store cid now) =
     \<lparr>allowed = count_of (snd (admit opts store cid now)) cid \<le> maxHits opts,
      limit = maxHits opts,
      remaining = max 0 (maxHits opts - count_of (snd (admit opts store cid now)) cid),
      resetAt = (if window_open_at opts store cid now
                 then windowStart (the (store cid)) else now) + windowMs opts\<rparr>"
  by (auto simp: admit_def Let_def count_of_def window_open_at_def load_or_create_def
        roll_window_def split: option.splits)

text \<open>
  C6. Fixed-window admission with \<open>max = 1\<close> and a window of 60 s: when the first of
  three checks of one client opens a window (the client has no record, or its window
  has elapsed), the second falls inside that window and the third at or after its end,
  the decisions are allowed, rejected, allowed. On every call, \<open>remaining\<close> is
  \<open>max 0 (max - count)\<close> and \<open>allowed\<close> is \<open>count \<le> max\<close> for the count stored by
  the call, which is the old count plus one inside the window and zero plus one once
  \<open>now \<ge> windowStart + windowDuration\<close> (or for a new client).
\<close>

theorem fixed_window_admission:
  assumes "\<not> window_open_at chatOptions store ip t1"
    and "t2 < t1 + windowMs chatOptions"
    and "t1 + windowMs chatOptions \<le> t3"
  shows "map allowed (admit_seq chatOptions store ip [t1, t2, t3]) = [True, False, True]
    \<and> map remaining (admit_seq chatOptions store ip [t1, t2, t3]) = [0, 0, 0]
    \<and> remaining (fst (admit opts st cid now)) =
          max 0 (maxHits opts - count_of (snd (admit opts st cid now)) cid)
    \<and> allowed (fst (admit opts st cid now)) =
          (count_of (snd (admit opts st cid now)) cid \<le> maxHits opts)
    \<and> count_of (snd (admit opts st cid now)) cid =
          (if window_open_at opts st cid now then count_of st cid + 1 else 0 + 1)"
proof -
  have seq: "map allowed (admit_seq chatOptions store ip [t1, t2, t3]) = [True, False, True]
    \<and> map remaining (admit_seq chatOptions store ip [t1, t2, t3]) = [0, 0, 0]"
    using assms
    by (auto simp: admit_def Let_def window_open_at_def load_or_create_def roll_window_def
          chatOptions_def split: option.splits)
  show ?thesis
    using seq by (simp add: admit_decision[of opts st cid now] admit_count)
qed

theorem fixed_window_admission_witness:
  "map allowed (admit_seq chatOptions Map.empty ''10.0.0.1'' [0, 59999, 60000]) = [True, False, True]
   \<and> map remaining (admit_seq chatOptions Map.empty ''10.0.0.1'' [0, 59999, 60000]) = [0, 0, 0]"
  using fixed_window_admission[of Map.empty "''10.0.0.1''" 0 59999 60000]
  by (simp add: window_open_at_def chatOptions_def)

lemma status_keeps_chatStore:
  "chatStore (snd (get_rate_limit_status srv ip now date_now failing)) = chatStore srv"
  by (simp add: get_rate_limit_status_def split: prod.splits)

lemma status_calls_chatStore: "chatStore (status_calls srv calls) = chatStore srv"
  by (induction srv calls rule: status_calls.induct) (simp_all add: status_keeps_chatStore)

text \<open>
  C8. Read-only status query: any number of calls of \<^verbatim>\<open>GET /rate-limit-status\<close>, by
  any callers at any times, leaves the chat limiter's store as it was; so the count of
  every client is unchanged, and an admission check or a \<^verbatim>\<open>POST /chat-stream\<close>
  afterwards gives the decision and the reply it would have given without them.
\<close>

theorem status_query_read_only:
  "chatStore (status_calls srv calls) = chatStore srv
   \<and> count_of (chatStore (status_calls srv calls)) ip = count_of (chatStore srv) ip
   \<and> fst (admit chatOptions (chatStore (status_calls srv calls)) ip now) =
       fst (admit chatOptions (chatStore srv) ip now)
   \<and> fst (post_chat_stream (status_calls srv calls) ip now date_now msgs steps ending) =
       fst (post_chat_stream srv ip now date_now msgs steps ending)"
  by (simp add: status_calls_chatStore post_chat_stream_def case_prod_beta)

lemma admitted_status_call_throws:
  "allowed (fst (admit statusOptions (statusStore srv) ip now)) \<Longrightarrow>
     fst (get_rate_limit_status srv ip now date_now failing) = Uncaught TypeError"
  by (simp add: get_rate_limit_status_def chatLimiter_def case_prod_beta)

text \<open>
  C10. The status of an unseen identifier is not served: the first status call of a
  caller the chat limiter has no record of is admitted by the status limiter, the
  route reads \<^verbatim>\<open>chatLimiter.store\<close>, which is \<^verbatim>\<open>undefined\<close>, and the call of
  \<^verbatim>\<open>get\<close> on it throws; the reply is 500, not the 200 with \<open>isRateLimited = false\<close>
  and the full limit that lines 145 to 155 would send.
\<close>

theorem status_lookup_throws:
  "chatStore empty_server ''10.0.0.1'' = None
   \<and> allowed (fst (admit statusOptions (statusStore empty_server) ''10.0.0.1'' 5))
   \<and> fst (get_rate_limit_status empty_server ''10.0.0.1'' 5 7 False) = Uncaught TypeError
   \<and> status_code (fst (get_rate_limit_status empty_server ''10.0.0.1'' 5 7 False)) = 500"
  by (simp add: get_rate_limit_status_def chatLimiter_def empty_server_def admit_def
        load_or_create_def roll_window_def statusOptions_def Let_def)

text \<open>
  C5, as the claim states it, fails: a request without \<open>messages\<close> from a client
  with no record is answered 400, yet the client's count goes from 0 to 1, and a
  second invalid request inside the window is answered 429, not 400.
\<close>

theorem invalid_request_consumes_quota:
  "status_code (fst (post_chat_stream empty_server ''10.0.0.1'' 0 0
                       (Missing :: unit messages_field) [] EndOfSequence)) = 400
   \<and> count_of (chatStore empty_server) ''10.0.0.1'' = 0
   \<and> count_of (chatStore (snd (post_chat_stream empty_server ''10.0.0.1'' 0 0
                       (Missing :: unit messages_field) [] EndOfSequence))) ''10.0.0.1'' = 1
   \<and> status_code (fst (post_chat_stream
                         (snd (post_chat_stream empty_server ''10.0.0.1'' 0 0
                                 (Missing :: unit messages_field) [] EndOfSequence))
                         ''10.0.0.1'' 1 1 (MessageArray ([] :: unit list)) [] EndOfSequence)) = 429"
  by (simp add: post_chat_stream_def admit_def load_or_create_def roll_window_def chatOptions_def
        empty_server_def chat_route_def chat_limit_handler_def count_of_def Let_def)

text \<open>
  C5, amended. The limiter runs before the route: a request whose \<open>messages\<close> field
  is missing, empty or not an array is counted by the admission check (the client's
  count grows by one inside its window and restarts at one otherwise); if admitted it
  is answered 400 with \<open>Invalid messages format\<close> and no stream is opened, and if
  rejected it is answered 429 by the limiter's handler.
\<close>

theorem validation_after_admission:
  assumes "invalid_messages msgs"
  shows "fst (post_chat_stream srv ip now date_now msgs steps ending) =
           (if allowed (fst (admit chatOptions (chatStore srv) ip now))
            then BadRequest (ascii ''Invalid messages format'')
            else chat_limit_handler (fst (admit chatOptions (chatStore srv) ip now)) date_now)
         \<and> count_of (chatStore (snd (post_chat_stream srv ip now date_now msgs steps ending))) ip =
             (if window_open_at chatOptions (chatStore srv) ip now
              then count_of (chatStore srv) ip + 1 else 1)"
  using assms
  by (simp add: post_chat_stream_def chat_route_def case_prod_beta admit_count)

theorem validation_after_admission_witness:
  "fst (post_chat_stream empty_server ''10.0.0.1'' 0 0 (NotArray :: unit messages_field) []
          EndOfSequence) = BadRequest (ascii ''Invalid messages format'')
   \<and> count_of (chatStore (snd (post_chat_stream empty_server ''10.0.0.1'' 0 0
                                  (NotArray :: unit messages_field) [] EndOfSequence)))
        ''10.0.0.1'' = 1"
  using validation_after_admission[of "NotArray :: unit messages_field" empty_server
          "''10.0.0.1''" 0 0 "[]" EndOfSequence]
  by (simp add: empty_server_def admit_def load_or_create_def roll_window_def chatOptions_def
        window_open_at_def Let_def)

section \<open>Properties of the stream relay\<close>

lemma terminal_events [simp]:
  "\<not> is_terminal (content_event c)" "\<not> is_terminal (finish_event f)"
  "is_terminal done_event" "is_terminal (error_event m)"
  by (simp_all add: is_terminal_def content_event_def finish_event_def done_event_def
        error_event_def no_fields_def)

lemma res_write_flags [simp]:
  "writableEnded (res_write ev res) = writableEnded res"
  "writable (res_write ev res) = writable res"
  by (simp_all add: res_write_def)

lemma res_write_logs:
  "sent (res_write ev res) = (if writableEnded res \<or> \<not> writable res then sent res else sent res @ [ev])"
  "refused (res_write ev res) = (if writableEnded res \<or> \<not> writable res then refused res @ [ev] else refused res)"
  by (simp_all add: res_write_def)

lemma res_end_fields [simp]:
  "writableEnded (res_end res)" "writable (res_end res) = writable res"
  "sent (res_end res) = sent res" "refused (res_end res) = refused res"
  by (simp_all add: res_end_def)

lemma relay_chunk_flags [simp]:
  "writableEnded (relay_chunk c res) = writableEnded res"
  "writable (relay_chunk c res) = writable res"
  by (simp_all add: relay_chunk_def Let_def)

lemma relay_chunk_terminal [simp]:
  "filter is_terminal (sent (relay_chunk c res)) = filter is_terminal (sent res)"
  "filter is_terminal (refused (relay_chunk c res)) = filter is_terminal (refused res)"
  by (simp_all add: relay_chunk_def Let_def res_write_logs)

lemma relay_loop_terminal:
  "relay_loop steps res = (broke, res') \<Longrightarrow> writable res \<Longrightarrow>
     filter is_terminal (sent res') = filter is_terminal (sent res)
     \<and> filter is_terminal (refused res') = filter is_terminal (refused res)
     \<and> writable res'
     \<and> writableEnded res' = (writableEnded res \<or> ClientClose \<in> set steps)"
proof (induction steps res arbitrary: broke res' rule: relay_loop.induct)
  case (1 res)
  then show ?case by simp
next
  case (2 steps res)
  from "2.IH"[of broke res'] "2.prems" show ?case
    by (simp add: onClientDisconnect_def)
next
  case (3 chunk steps res)
  show ?case
  proof (cases "writableEnded res")
    case True
    with "3.prems" show ?thesis by auto
  next
    case False
    with "3.IH"[of broke res'] "3.prems" show ?thesis by simp
  qed
qed

lemma relay_loop_broke:
  "relay_loop steps res = (True, res') \<Longrightarrow> writableEnded res' \<or> \<not> writable res'"
  by (induction steps res rule: relay_loop.induct) (auto split: if_splits)

text \<open>
  C7. Terminal-event exclusivity: whatever the provider and the client do, the relay
  writes at most one terminal event, counting the writes the ended response refuses.
  While the client has not disconnected, the events sent hold exactly one terminal
  event: \<open>done\<close> when the provider's sequence ends, \<open>error\<close> with the provider's
  message when it fails; after a disconnect none is sent. So \<open>done\<close> and \<open>error\<close>
  are never both written.
\<close>

theorem terminal_event_exclusive:
  "length (filter is_terminal (sent (relay steps ending fresh_res)
                               @ refused (relay steps ending fresh_res))) \<le> 1
   \<and> filter is_terminal (sent (relay steps ending fresh_res)) =
       (if ClientClose \<in> set steps then []
        else (case ending of
                EndOfSequence \<Rightarrow> [done_event]
              | Failure msg \<Rightarrow> [error_event (error_message msg)]))"
proof -
  obtain broke res' where loop: "relay_loop steps fresh_res = (broke, res')"
    by (cases "relay_loop steps fresh_res")
  from relay_loop_terminal[OF loop]
  have t: "filter is_terminal (sent res') = []" "filter is_terminal (refused res') = []"
    and w: "writable res'" "writableEnded res' = (ClientClose \<in> set steps)"
    by (simp_all add: fresh_res_def)
  from relay_loop_broke[of steps fresh_res res'] loop w
  have b: "broke \<Longrightarrow> ClientClose \<in> set steps" by (cases broke) auto
  show ?thesis
  proof (cases "ClientClose \<in> set steps")
    case True
    with loop t w show ?thesis
      by (cases broke; cases ending)
         (simp_all add: relay_def finish_stream_def catch_upstream_def res_write_logs)
  next
    case False
    with b have "\<not> broke" by auto
    with False loop t w show ?thesis
      by (cases ending)
         (simp_all add: relay_def finish_stream_def catch_upstream_def res_write_logs)
  qed
qed

text \<open>
  C4. Disconnect silence does not hold of the writes the relay issues: the client
  disconnects after the first delta, the loop leaves by \<^verbatim>\<open>break\<close> on the next one,
  and the handler then writes \<open>done\<close> on the ended response, which refuses it. The
  \<^verbatim>\<open>catch\<close> block guards its write with the state of the response; this path does
  not.
\<close>

theorem done_written_after_disconnect:
  "relay [Delta \<lparr>delta_content = Some (ascii ''Hel''), finish_reason = None\<rparr>,
          ClientClose,
          Delta \<lparr>delta_content = Some (ascii ''lo''), finish_reason = None\<rparr>]
         EndOfSequence fresh_res =
     \<lparr>writableEnded = True, writable = True,
      sent = [content_event (ascii ''Hel'')], refused = [done_event]\<rparr>"
  by (simp add: relay_def relay_chunk_def finish_stream_def onClientDisconnect_def res_write_def
        res_end_def fresh_res_def truthy_def ascii_def)

section \<open>Properties of the chat session controller\<close>

text \<open>
  C9. Send gate on exhausted quota: whenever \<open>remaining \<le> 0\<close>, \<^verbatim>\<open>sendMessage\<close>
  returns at once, the state (conversation, input, typing flag) unchanged and no
  request issued, and the input field and the send button are disabled, whatever
  \<open>isLimited\<close> is. In general a send issues no request exactly when the input is
  blank, a request is in flight, \<open>isLimited\<close> holds or \<open>remaining \<le> 0\<close>.
\<close>

theorem send_gate_on_exhausted_quota:
  assumes "rl_remaining (rateLimit st) \<le> 0"
  shows "sendMessage parse fetch st = (st, None)
         \<and> input_disabled st \<and> button_disabled st
         \<and> (snd (sendMessage parse fetch st') = None) =
             (trim (input st') = [] \<or> isTyping st'
              \<or> rl_isLimited (rateLimit st') \<or> rl_remaining (rateLimit st') \<le> 0)"
  using assms
  by (simp add: sendMessage_def isRateLimited_def input_disabled_def button_disabled_def Let_def)

theorem send_gate_on_exhausted_quota_witness:
  "\<not> rl_isLimited (rateLimit (ready_ChatBot\<lparr>rateLimit := \<lparr>rl_limit = 1, rl_remaining = 0,
        rl_reset = Some 60000, rl_isLimited = False\<rparr>\<rparr>))
   \<and> sendMessage JSON_parse (\<lambda>request. stream_reply [accented_stream])
        (ready_ChatBot\<lparr>rateLimit := \<lparr>rl_limit = 1, rl_remaining = 0,
           rl_reset = Some 60000, rl_isLimited = False\<rparr>\<rparr>) =
       (ready_ChatBot\<lparr>rateLimit := \<lparr>rl_limit = 1, rl_remaining = 0,
           rl_reset = Some 60000, rl_isLimited = False\<rparr>\<rparr>, None)
   \<and> snd (sendMessage JSON_parse (\<lambda>request. stream_reply [accented_stream]) ready_ChatBot) \<noteq> None"
  using send_gate_on_exhausted_quota[of "ready_ChatBot\<lparr>rateLimit := \<lparr>rl_limit = 1, rl_remaining = 0,
        rl_reset = Some 60000, rl_isLimited = False\<rparr>\<rparr>" JSON_parse
        "\<lambda>request. stream_reply [accented_stream]" ready_ChatBot]
  by (simp add: ready_ChatBot_def initial_ChatBot_def trim_def js_space_def ascii_def)

text \<open>
  C3. Mid-stream error rollback does not hold: after a content event \<open>par\<close> and an
  event \<^verbatim>\<open>{"error": "boom"}\<close>, the error message is \<open>Error: boom\<close>, but the
  conversation still ends with the assistant message holding \<open>par\<close>: only the
  \<^verbatim>\<open>catch\<close> block and the 429 branch remove the placeholder.
\<close>

theorem stream_error_keeps_placeholder:
  "messages (fst (sendMessage JSON_parse
       (\<lambda>request. stream_reply [utf8_encode (wire_text [content_event (ascii ''par'')]),
                                 utf8_encode (wire_text [error_event (ascii ''boom'')])])
       ready_ChatBot)) =
     [\<lparr>role = User, content = ascii ''hi''\<rparr>, \<lparr>role = Assistant, content = ascii ''par''\<rparr>]
   \<and> error (fst (sendMessage JSON_parse
       (\<lambda>request. stream_reply [utf8_encode (wire_text [content_event (ascii ''par'')]),
                                 utf8_encode (wire_text [error_event (ascii ''boom'')])])
       ready_ChatBot)) = Some (ascii ''Error: boom'')"
  by (simp add: json_defs utf8_defs client_defs)

text \<open>
  C2. Multi-byte-safe decoding does not hold: the two bytes of \<open>U+00E9\<close> fall into two
  chunks, each chunk is decoded on its own, both halves become U+FFFD, and the event
  that carried the character is lost; the same bytes in one chunk give the character,
  and so would the two chunks decoded with the \<^verbatim>\<open>stream\<close> option.
\<close>

theorem split_character_is_lost:
  "decode accented_stream = wire_text [content_event [233], done_event]
   \<and> decode (take 19 accented_stream) = data_prefix @ take 12 (JSON_stringify (content_event [233])) @ [65533]
   \<and> hd (decode (drop 19 accented_stream)) = 65533
   \<and> fst (decode_stream utf8_initial (take 19 accented_stream)) @
       fst (decode_stream (snd (decode_stream utf8_initial (take 19 accented_stream)))
              (drop 19 accented_stream)) =
       wire_text [content_event [233], done_event]
   \<and> messages (fst (sendMessage JSON_parse (\<lambda>request. stream_reply [accented_stream]) ready_ChatBot)) =
       [\<lparr>role = User, content = ascii ''hi''\<rparr>, \<lparr>role = Assistant, content = [233]\<rparr>]
   \<and> messages (fst (sendMessage JSON_parse
         (\<lambda>request. stream_reply [take 19 accented_stream, drop 19 accented_stream]) ready_ChatBot)) =
       [\<lparr>role = User, content = ascii ''hi''\<rparr>, \<lparr>role = Assistant, content = []\<rparr>]"
  by (simp add: accented_stream_def decode_stream_def json_defs utf8_defs client_defs)

section \<open>End-to-end reconstruction of the stream\<close>

lemma relay_chunk_open:
  "\<not> writableEnded res \<Longrightarrow> writable res \<Longrightarrow>
     relay_chunk c res = res\<lparr>sent := sent res @ chunk_events c\<rparr>"
  by (simp add: relay_chunk_def chunk_events_def res_write_def Let_def)

lemma relay_loop_deltas:
  "\<not> writableEnded res \<Longrightarrow> writable res \<Longrightarrow>
     relay_loop (map Delta ds) res = (False, res\<lparr>sent := sent res @ concat (map chunk_events ds)\<rparr>)"
proof (induction ds arbitrary: res)
  case Nil
  then show ?case by simp
next
  case (Cons d ds)
  from Cons.prems have "relay_loop (map Delta (d # ds)) res
        = relay_loop (map Delta ds) (res\<lparr>sent := sent res @ chunk_events d\<rparr>)"
    by (simp add: relay_chunk_open)
  also have "\<dots> = (False, res\<lparr>sent := sent res @ chunk_events d\<rparr>
      \<lparr>sent := sent (res\<lparr>sent := sent res @ chunk_events d\<rparr>) @ concat (map chunk_events ds)\<rparr>)"
    using Cons.prems by (intro Cons.IH) simp_all
  finally show ?case by simp
qed

lemma relay_deltas:
  "relay (map Delta ds) EndOfSequence fresh_res =
     \<lparr>writableEnded = True, writable = True,
      sent = concat (map chunk_events ds) @ [done_event], refused = []\<rparr>"
  by (simp add: relay_def relay_loop_deltas fresh_res_def finish_stream_def res_write_def res_end_def)

lemma carries_content_events [simp]:
  "carries_content (content_event c)" "\<not> carries_content (finish_event f)"
  "\<not> carries_content done_event" "\<not> carries_content (error_event m)"
  by (simp_all add: carries_content_def content_event_def finish_event_def done_event_def
        error_event_def no_fields_def)

lemma content_events_of_deltas:
  "filter carries_content (concat (map chunk_events ds) @ [done_event]) =
     map content_event (delta_texts ds)"
  by (induction ds) (simp_all add: delta_texts_def chunk_events_def)

lemma hex_digit_not_lf: "hex_digit d \<noteq> 10"
  by (simp add: hex_digit_def)

lemma quote_char_no_lf: "10 \<notin> set (quote_char c)"
  by (simp add: quote_char_def hex4_def hex_digit_not_lf)

lemma QuoteJSONString_no_lf: "10 \<notin> set (QuoteJSONString s)"
  by (simp add: QuoteJSONString_def quote_char_no_lf)

lemma join_comma_set: "set (join_comma ms) \<subseteq> insert 44 (\<Union>(set ` set ms))"
  by (induction ms rule: join_comma.induct) auto

lemma JSON_stringify_no_lf: "10 \<notin> set (JSON_stringify ev)"
proof -
  have "10 \<notin> set (join_comma ms)" if "\<forall>m \<in> set ms. 10 \<notin> set m" for ms
    using that join_comma_set[of ms] by auto
  moreover have "10 \<notin> set (member_text name v)" if "10 \<notin> set v" for name v
    using that by (simp add: member_text_def QuoteJSONString_no_lf)
  ultimately show ?thesis
    by (auto simp: JSON_stringify_def QuoteJSONString_no_lf ascii_def split: option.splits)
qed

lemma data_prefix_no_lf: "10 \<notin> set data_prefix"
  by (simp add: data_prefix_def ascii_def)

lemma split_nn_frame: "10 \<notin> set x \<Longrightarrow> split_nn (x @ 10 # 10 # rest) = x # split_nn rest"
proof (induction x)
  case Nil
  then show ?case by simp
next
  case (Cons a x)
  then obtain y zs where yz: "x @ 10 # 10 # rest = y # zs"
    by (cases "x @ 10 # 10 # rest") auto
  from Cons have "split_nn (x @ 10 # 10 # rest) = x # split_nn rest" by simp
  with yz Cons.prems show ?case by simp
qed

lemma split_nn_wire:
  "split_nn (wire_text evs) = map (\<lambda>e. data_prefix @ JSON_stringify e) evs @ [[]]"
proof (induction evs)
  case Nil
  then show ?case by (simp add: wire_text_def)
next
  case (Cons e evs)
  have "10 \<notin> set (data_prefix @ JSON_stringify e)"
    by (simp add: data_prefix_no_lf JSON_stringify_no_lf)
  from split_nn_frame[OF this, of "wire_text evs"] Cons show ?case
    by (simp add: wire_text_def sse_frame_def)
qed

lemma startsWith_data_prefix [simp]:
  "startsWith (data_prefix @ y) data_prefix" "\<not> startsWith [] data_prefix"
  by (simp_all add: startsWith_def data_prefix_def ascii_def)

lemma strip_data_prefix_frame [simp]: "strip_data_prefix (data_prefix @ y) = y"
  by (simp add: strip_data_prefix_def)

lemma chunk_lines_wire:
  "decode bytes = wire_text evs \<Longrightarrow>
     chunk_lines bytes = map (\<lambda>e. data_prefix @ JSON_stringify e) evs"
  by (simp add: chunk_lines_def split_nn_wire filter_map o_def)

lemma handle_chunk_wire:
  assumes "decode bytes = wire_text evs"
    and "\<forall>e \<in> set evs. parse (JSON_stringify e) = Some e"
  shows "handle_chunk parse bytes st = handle_events evs st"
proof -
  have "foldl (handle_line parse) st (map (\<lambda>e. data_prefix @ JSON_stringify e) evs)
          = foldl (\<lambda>s e. handle_data e s) st evs"
    using assms(2)
    by (induction evs arbitrary: st) (simp_all add: handle_line_def)
  with chunk_lines_wire[OF assms(1)] show ?thesis
    by (simp add: handle_chunk_def handle_events_def)
qed

lemma handle_events_Cons [simp]:
  "handle_events [] st = st"
  "handle_events (e # es) st = handle_events es (handle_data e st)"
  by (simp_all add: handle_events_def)

lemma event_texts_simps [simp]:
  "event_texts [] = []"
  "event_texts (e # es) = (if truthy (sr_content e) then the (sr_content e) # event_texts es else event_texts es)"
  "event_texts (xs @ ys) = event_texts xs @ event_texts ys"
  by (simp_all add: event_texts_def)

lemma handle_data_plain:
  assumes "\<not> truthy (sr_error e)"
  shows "assistantMessage (handle_data e st) = assistantMessage st @ concat (event_texts [e])"
    and "responseFinished (handle_data e st) = (responseFinished st \<or> finishing e)"
    and "ss_error (handle_data e st) = ss_error st"
    and "ss_messages (handle_data e st) =
          (if event_texts [e] = [] then ss_messages st
           else butlast (ss_messages st) @
                  [\<lparr>role = Assistant, content = assistantMessage st @ concat (event_texts [e])\<rparr>])"
  using assms by (simp_all add: handle_data_def Let_def finishing_def)

lemma handle_events_plain:
  assumes "\<forall>e \<in> set evs. \<not> truthy (sr_error e)"
  shows "assistantMessage (handle_events evs st) = assistantMessage st @ concat (event_texts evs)
    \<and> responseFinished (handle_events evs st) = (responseFinished st \<or> (\<exists>e \<in> set evs. finishing e))
    \<and> ss_error (handle_events evs st) = ss_error st
    \<and> ss_messages (handle_events evs st) =
          (if event_texts evs = [] then ss_messages st
           else butlast (ss_messages st) @
                  [\<lparr>role = Assistant, content = assistantMessage st @ concat (event_texts evs)\<rparr>])"
  using assms
proof (induction evs arbitrary: st)
  case Nil
  then show ?case by simp
next
  case (Cons e evs)
  then have e: "\<not> truthy (sr_error e)" and rest: "\<forall>e \<in> set evs. \<not> truthy (sr_error e)"
    by simp_all
  note h = handle_data_plain[OF e, of st]
  from Cons.IH[OF rest, of "handle_data e st"] show ?case
    by (auto simp: h butlast_append)
qed

lemma quiet_after_append:
  "quiet_after f (xs @ ys) = (quiet_after f xs \<and> quiet_after (f \<or> (\<exists>e \<in> set xs. finishing e)) ys)"
  by (induction xs arbitrary: f) auto

lemma quiet_after_True: "quiet_after True evs \<Longrightarrow> event_texts evs = []"
  by (induction evs) auto

lemma read_loop_finished [simp]:
  "responseFinished st \<Longrightarrow> read_loop parse chunks ending st = (None, st)"
  by (cases chunks) simp_all

lemma read_loop_aligned:
  assumes "map decode chunks = map wire_text groups"
    and "\<forall>e \<in> set (concat groups). parse (JSON_stringify e) = Some e"
    and "\<forall>e \<in> set (concat groups). \<not> truthy (sr_error e)"
    and "quiet_after (responseFinished st) (concat groups)"
    and "responseFinished st \<or> (\<exists>e \<in> set (concat groups). finishing e)"
  shows "\<exists>st'. read_loop parse chunks ending st = (None, st')
    \<and> assistantMessage st' = assistantMessage st @ concat (event_texts (concat groups))
    \<and> ss_error st' = ss_error st
    \<and> ss_messages st' =
          (if event_texts (concat groups) = [] then ss_messages st
           else butlast (ss_messages st) @
                  [\<lparr>role = Assistant,
                    content = assistantMessage st @ concat (event_texts (concat groups))\<rparr>])"
  using assms
proof (induction chunks arbitrary: groups st)
  case Nil
  then show ?case by simp
next
  case (Cons bytes chunks)
  from Cons.prems(1) obtain g gs where groups: "groups = g # gs"
    and g: "decode bytes = wire_text g" and gs: "map decode chunks = map wire_text gs"
    by (cases groups) auto
  show ?case
  proof (cases "responseFinished st")
    case True
    with Cons.prems(4) quiet_after_True[of "concat groups"] show ?thesis by simp
  next
    case False
    let ?st1 = "handle_events g st"
    from Cons.prems(2) groups have pg: "\<forall>e \<in> set g. parse (JSON_stringify e) = Some e"
      and pgs: "\<forall>e \<in> set (concat gs). parse (JSON_stringify e) = Some e"
      by auto
    from Cons.prems(3) groups have eg: "\<forall>e \<in> set g. \<not> truthy (sr_error e)"
      and egs: "\<forall>e \<in> set (concat gs). \<not> truthy (sr_error e)"
      by auto
    note h = handle_events_plain[OF eg, of st]
    from h False have fin1: "responseFinished ?st1 = (\<exists>e \<in> set g. finishing e)" by simp
    from Cons.prems(4) groups False fin1 have q: "quiet_after (responseFinished ?st1) (concat gs)"
      by (simp add: quiet_after_append)
    from Cons.prems(5) groups False fin1
    have f: "responseFinished ?st1 \<or> (\<exists>e \<in> set (concat gs). finishing e)"
      by auto
    from Cons.IH[OF gs pgs egs q f] obtain st' where
      loop: "read_loop parse chunks ending ?st1 = (None, st')"
      and am: "assistantMessage st' = assistantMessage ?st1 @ concat (event_texts (concat gs))"
      and er: "ss_error st' = ss_error ?st1"
      and ms: "ss_messages st' =
          (if event_texts (concat gs) = [] then ss_messages ?st1
           else butlast (ss_messages ?st1) @
                  [\<lparr>role = Assistant,
                    content = assistantMessage ?st1 @ concat (event_texts (concat gs))\<rparr>])"
      by blast
    from False loop have "read_loop parse (bytes # chunks) ending st = (None, st')"
      by (simp add: handle_chunk_wire[OF g pg])
    moreover from am h groups
    have "assistantMessage st' = assistantMessage st @ concat (event_texts (concat groups))"
      by simp
    moreover from er h have "ss_error st' = ss_error st" by simp
    moreover from ms h groups have "ss_messages st' =
          (if event_texts (concat groups) = [] then ss_messages st
           else butlast (ss_messages st) @
                  [\<lparr>role = Assistant,
                    content = assistantMessage st @ concat (event_texts (concat groups))\<rparr>])"
      by (auto simp: butlast_append)
    ultimately show ?thesis by blast
  qed
qed

lemma finishing_events [simp]:
  "\<not> finishing (content_event c)" "finishing (finish_event f) = (f \<noteq> [])"
  "finishing done_event" "\<not> finishing (error_event m)"
  by (simp_all add: finishing_def content_event_def finish_event_def done_event_def
        error_event_def no_fields_def truthy_def)

lemma event_fields [simp]:
  "sr_content (content_event c) = Some c" "sr_content (finish_event f) = None"
  "sr_content done_event = None"
  "sr_error (content_event c) = None" "sr_error (finish_event f) = None"
  "sr_error done_event = None"
  by (simp_all add: content_event_def finish_event_def done_event_def no_fields_def)

lemma truthy_None [simp]: "\<not> truthy None"
  by (simp add: truthy_def)

lemma chunk_events_no_error: "e \<in> set (chunk_events c) \<Longrightarrow> \<not> truthy (sr_error e)"
  by (auto simp: chunk_events_def split: if_splits)

lemma truthy_the: "truthy v \<Longrightarrow> Some (the v) = v"
  by (cases v) (simp_all add: truthy_def)

lemma chunk_events_texts:
  "event_texts (concat (map chunk_events ds)) = delta_texts ds"
  by (induction ds) (auto simp: chunk_events_def delta_texts_def truthy_the)

lemma chunk_events_not_finishing:
  "\<not> truthy (finish_reason c) \<Longrightarrow> e \<in> set (chunk_events c) \<Longrightarrow> \<not> finishing e"
  by (auto simp: chunk_events_def split: if_splits)

lemma quiet_after_chunk: "quiet_after False (chunk_events c @ [done_event])"
  by (simp add: chunk_events_def)

lemma quiet_no_finishing: "\<forall>e \<in> set xs. \<not> finishing e \<Longrightarrow> quiet_after False xs"
  by (induction xs) auto

lemma sent_quiet:
  assumes "\<forall>c \<in> set (butlast ds). \<not> truthy (finish_reason c)"
  shows "quiet_after False (concat (map chunk_events ds) @ [done_event])"
proof (cases ds rule: rev_cases)
  case Nil
  then show ?thesis by simp
next
  case (snoc init c)
  with assms have nf: "\<forall>e \<in> set (concat (map chunk_events init)). \<not> finishing e"
    by (auto dest: chunk_events_not_finishing)
  have "quiet_after False (concat (map chunk_events init) @ (chunk_events c @ [done_event]))"
    using nf quiet_no_finishing[OF nf] quiet_after_chunk[of c]
      quiet_after_append[of False "concat (map chunk_events init)" "chunk_events c @ [done_event]"]
    by simp
  with snoc show ?thesis by simp
qed

lemma sent_no_error:
  "\<forall>e \<in> set (concat (map chunk_events ds) @ [done_event]). \<not> truthy (sr_error e)"
  by (auto dest: chunk_events_no_error)

lemma sent_texts: "event_texts (concat (map chunk_events ds) @ [done_event]) = delta_texts ds"
  by (simp add: chunk_events_texts)

text \<open>
  The reconstruction for any parser that reads back the events sent: chunks that
  decode to whole events give the conversation its final assistant message.
\<close>

lemma reconstruction_with_parser:
  assumes enabled: "trim (input st) \<noteq> []" "\<not> isTyping st" "\<not> isRateLimited st"
    and admitted:
      "fst (post_chat_stream srv ip now date_now
              (MessageArray (messages st @ [\<lparr>role = User, content = trim (input st)\<rparr>]))
              (map Delta deltas) EndOfSequence) = EventStream hdrs res"
    and finish_last: "\<forall>c \<in> set (butlast deltas). \<not> truthy (finish_reason c)"
    and fetched: "fetch (messages st @ [\<lparr>role = User, content = trim (input st)\<rparr>]) = Resolved r"
      "status r = 200" "body_reader r = Some (chunks, ending)"
    and aligned: "concat groups = sent res" "map decode chunks = map wire_text groups"
    and codec: "\<forall>ev \<in> set (sent res). parse (JSON_stringify ev) = Some ev"
  shows "filter carries_content (sent res) = map content_event (delta_texts deltas)
    \<and> messages (fst (sendMessage parse fetch st)) =
        messages st @ [\<lparr>role = User, content = trim (input st)\<rparr>,
                       \<lparr>role = Assistant, content = concat (delta_texts deltas)\<rparr>]
    \<and> error (fst (sendMessage parse fetch st)) = None
    \<and> \<not> isTyping (fst (sendMessage parse fetch st))
    \<and> terminal_state (sendMessage parse fetch st) = Completed"
proof -
  let ?updated = "messages st @ [\<lparr>role = User, content = trim (input st)\<rparr>]"
  let ?evs = "concat (map chunk_events deltas) @ [done_event]"
  from admitted have res: "res = relay (map Delta deltas) EndOfSequence fresh_res"
    by (auto simp: post_chat_stream_def chat_route_def chat_limit_handler_def Let_def
          case_prod_beta split: if_splits)
  then have sent: "sent res = ?evs" by (simp add: relay_deltas)
  have cg: "concat groups = ?evs" using aligned(1) sent by simp
  have texts: "event_texts (concat groups) = delta_texts deltas"
    unfolding cg by (rule sent_texts)
  let ?ss = "\<lparr>ss_messages = ?updated @ [\<lparr>role = Assistant, content = []\<rparr>], ss_error = None,
              assistantMessage = [], responseFinished = False\<rparr>"
  have h1: "\<forall>e \<in> set (concat groups). parse (JSON_stringify e) = Some e"
    using codec aligned(1) by simp
  have h2: "\<forall>e \<in> set (concat groups). \<not> truthy (sr_error e)"
    unfolding cg by (rule sent_no_error)
  have h3: "quiet_after (responseFinished ?ss) (concat groups)"
    unfolding cg using sent_quiet[OF finish_last] by simp
  have h4: "responseFinished ?ss \<or> (\<exists>e \<in> set (concat groups). finishing e)"
    unfolding cg by simp
  from read_loop_aligned[OF aligned(2) h1 h2 h3 h4, of ending] obtain st' where
    loop: "read_loop parse chunks ending ?ss = (None, st')"
    and er': "ss_error st' = ss_error ?ss"
    and ms': "ss_messages st' =
          (if event_texts (concat groups) = [] then ss_messages ?ss
           else butlast (ss_messages ?ss) @
                  [\<lparr>role = Assistant,
                    content = assistantMessage ?ss @ concat (event_texts (concat groups))\<rparr>])"
    by blast
  from er' have er: "ss_error st' = None" by simp
  from ms' texts
  have ms: "ss_messages st' = ?updated @ [\<lparr>role = Assistant, content = concat (delta_texts deltas)\<rparr>]"
    by (cases "delta_texts deltas = []") (simp_all add: butlast_append)
  have send: "fst (sendMessage parse fetch st) =
      st\<lparr>messages := ?updated @ [\<lparr>role = Assistant, content = concat (delta_texts deltas)\<rparr>],
         input := [], isTyping := False, error := None,
         rateLimit := \<lparr>rl_limit = (case header_limit r of None \<Rightarrow> 0 | Some n \<Rightarrow> n),
                       rl_remaining = (case header_remaining r of None \<Rightarrow> 0 | Some n \<Rightarrow> n),
                       rl_reset = header_reset r, rl_isLimited = False\<rparr>\<rparr>"
    and req: "snd (sendMessage parse fetch st) = Some ?updated"
    using enabled fetched loop er ms
    by (simp_all add: sendMessage_def on_response_def read_body_def Let_def)
  have "filter carries_content (sent res) = map content_event (delta_texts deltas)"
    unfolding sent by (rule content_events_of_deltas)
  with send req show ?thesis
    by (simp add: terminal_state_def)
qed

text \<open>The model's parser reads back every event the relay writes.\<close>

lemma unhex_hex_digit: "d < 16 \<Longrightarrow> unhex (hex_digit d) = Some d"
  by (simp add: unhex_def hex_digit_def)

lemma hex_places:
  fixes c :: nat
  assumes "c < 65536"
  shows "c div 4096 mod 16 * 4096 + c div 256 mod 16 * 256 + c div 16 mod 16 * 16 + c mod 16 = c"
proof -
  define q1 where "q1 = c div 16"
  define q2 where "q2 = q1 div 16"
  define q3 where "q3 = q2 div 16"
  have c: "c = 16 * q1 + c mod 16" unfolding q1_def by simp
  have q1: "q1 = 16 * q2 + q1 mod 16" unfolding q2_def by simp
  have q2: "q2 = 16 * q3 + q2 mod 16" unfolding q3_def by simp
  have d2: "c div 256 = q2" unfolding q2_def q1_def by (simp add: div_mult2_eq[symmetric])
  have d3: "c div 4096 = q3" unfolding q3_def q2_def q1_def by (simp add: div_mult2_eq[symmetric])
  have "q3 < 16" using assms c q1 q2 by linarith
  then have m3: "q3 mod 16 = q3" by simp
  have "q3 * 4096 + q2 mod 16 * 256 + q1 mod 16 * 16 + c mod 16 = c"
    using c q1 q2 by linarith
  then show ?thesis
    by (simp add: d2 d3 m3 q1_def[symmetric])
qed

lemma unhex4_hex4:
  assumes "c < 65536"
  shows "unhex4 (hex_digit (c div 4096 mod 16)) (hex_digit (c div 256 mod 16))
           (hex_digit (c div 16 mod 16)) (hex_digit (c mod 16)) = Some c"
proof -
  have "unhex4 (hex_digit (c div 4096 mod 16)) (hex_digit (c div 256 mod 16))
           (hex_digit (c div 16 mod 16)) (hex_digit (c mod 16)) =
        Some (c div 4096 mod 16 * 4096 + c div 256 mod 16 * 256 + c div 16 mod 16 * 16 + c mod 16)"
    unfolding unhex4_def by (simp only: unhex_hex_digit mod_less_divisor zero_less_numeral
        prod.case option.case)
  then show ?thesis
    unfolding hex_places[OF assms] .
qed

lemma lex_string_quote_char:
  "lex_string (quote_char c @ rest) = cons_string c (lex_string rest)"
proof -
  consider (named) "c \<in> {8, 9, 10, 12, 13, 34, 92}"
    | (hex) "c \<notin> {8, 9, 10, 12, 13, 34, 92}" "c < 32 \<or> (55296 \<le> c \<and> c \<le> 57343)"
    | (plain) "c \<notin> {8, 9, 10, 12, 13, 34, 92}" "\<not> (c < 32 \<or> (55296 \<le> c \<and> c \<le> 57343))"
    by blast
  then show ?thesis
  proof cases
    case named
    then show ?thesis
      by (auto simp: quote_char_def lex_escape_def unescape_def)
  next
    case hex
    then have "c < 65536" by auto
    from unhex4_hex4[OF this] hex show ?thesis
      by (simp add: quote_char_def hex4_def lex_escape_def)
  next
    case plain
    then show ?thesis
      by (auto simp: quote_char_def)
  qed
qed

lemma lex_string_quoted:
  "lex_string (concat (map quote_char s) @ 34 # rest) = Some (s, rest)"
  by (induction s) (simp_all add: lex_string_quote_char cons_string_def)

lemma lex_QuoteJSONString:
  "lex (QuoteJSONString s @ rest) = map_option ((#) (TString s)) (lex rest)"
  by (simp add: QuoteJSONString_def lex_string_quoted)

lemma lex_string_member:
  "lex (123 # member_text name (QuoteJSONString s) @ [125]) =
     Some [LBrace, TString (ascii name), Colon, TString s, RBrace]"
  using lex_QuoteJSONString[of "ascii name" "58 # QuoteJSONString s @ [125]"]
    lex_QuoteJSONString[of s "[125]"]
  by (simp add: member_text_def)

lemma JSON_parse_content: "JSON_parse (JSON_stringify (content_event c)) = Some (content_event c)"
  using lex_string_member[of "''content''" c]
  by (simp add: JSON_parse_def JSON_stringify_def content_event_def no_fields_def put_member_def
        ascii_def)

lemma JSON_parse_finish: "JSON_parse (JSON_stringify (finish_event f)) = Some (finish_event f)"
  using lex_string_member[of "''finish_reason''" f]
  by (simp add: JSON_parse_def JSON_stringify_def finish_event_def no_fields_def put_member_def
        ascii_def)

lemma JSON_parse_error: "JSON_parse (JSON_stringify (error_event m)) = Some (error_event m)"
  using lex_string_member[of "''error''" m]
  by (simp add: JSON_parse_def JSON_stringify_def error_event_def no_fields_def put_member_def
        ascii_def)

lemma JSON_parse_done: "JSON_parse (JSON_stringify done_event) = Some done_event"
  by (simp add: json_defs)

lemma JSON_parse_chunk_events:
  "e \<in> set (concat (map chunk_events ds) @ [done_event]) \<Longrightarrow>
     JSON_parse (JSON_stringify e) = Some e"
  by (auto simp: chunk_events_def JSON_parse_content JSON_parse_finish JSON_parse_done
        split: if_splits)

text \<open>
  C1, amended. End-to-end reconstruction, when every chunk the reader yields decodes
  to the text of a whole number of the server's events, in order: for an admitted
  request whose provider emits deltas with no finish reason before the last one and
  then ends, the server sends one content event per non-empty delta in arrival order,
  and the conversation afterwards is the one before the send, the user's message, and
  one assistant message whose content is the concatenation of those deltas; no error is
  shown, the typing indicator is off and the controller is in state \<open>Completed\<close>.
\<close>

theorem streaming_reconstruction:
  assumes enabled: "trim (input st) \<noteq> []" "\<not> isTyping st" "\<not> isRateLimited st"
    and admitted:
      "fst (post_chat_stream srv ip now date_now
              (MessageArray (messages st @ [\<lparr>role = User, content = trim (input st)\<rparr>]))
              (map Delta deltas) EndOfSequence) = EventStream hdrs res"
    and finish_last: "\<forall>c \<in> set (butlast deltas). \<not> truthy (finish_reason c)"
    and fetched: "fetch (messages st @ [\<lparr>role = User, content = trim (input st)\<rparr>]) = Resolved r"
      "status r = 200" "body_reader r = Some (chunks, ending)"
    and aligned: "concat groups = sent res" "map decode chunks = map wire_text groups"
  shows "filter carries_content (sent res) = map content_event (delta_texts deltas)
    \<and> messages (fst (sendMessage JSON_parse fetch st)) =
        messages st @ [\<lparr>role = User, content = trim (input st)\<rparr>,
                       \<lparr>role = Assistant, content = concat (delta_texts deltas)\<rparr>]
    \<and> error (fst (sendMessage JSON_parse fetch st)) = None
    \<and> \<not> isTyping (fst (sendMessage JSON_parse fetch st))
    \<and> terminal_state (sendMessage JSON_parse fetch st) = Completed"
proof -
  from admitted have "res = relay (map Delta deltas) EndOfSequence fresh_res"
    by (auto simp: post_chat_stream_def chat_route_def chat_limit_handler_def Let_def
          case_prod_beta split: if_splits)
  then have "sent res = concat (map chunk_events deltas) @ [done_event]"
    by (simp add: relay_deltas)
  then have "\<forall>ev \<in> set (sent res). JSON_parse (JSON_stringify ev) = Some ev"
    using JSON_parse_chunk_events[of _ deltas] by simp
  from reconstruction_with_parser[where parse = JSON_parse and fetch = fetch,
      OF enabled admitted finish_last fetched aligned this]
  show ?thesis .
qed

theorem streaming_reconstruction_witness:
  "fst (post_chat_stream empty_server ''10.0.0.1'' 0 0
          (MessageArray [\<lparr>role = User, content = ascii ''hi''\<rparr>])
          (map Delta hello_deltas) EndOfSequence) =
     EventStream \<lparr>x_ratelimit_limit = Some 1, x_ratelimit_remaining = Some 0,
                   x_ratelimit_reset = Some 60000\<rparr>
       \<lparr>writableEnded = True, writable = True, sent = hello_events, refused = []\<rparr>
   \<and> messages (fst (sendMessage JSON_parse
         (\<lambda>request. stream_reply
            [utf8_encode (wire_text [content_event (ascii ''Hel'')]),
             utf8_encode (wire_text [content_event (ascii ''lo''), finish_event (ascii ''stop'')]),
             utf8_encode (wire_text [done_event])])
         ready_ChatBot)) =
       [\<lparr>role = User, content = ascii ''hi''\<rparr>, \<lparr>role = Assistant, content = ascii ''Hello''\<rparr>]
   \<and> terminal_state (sendMessage JSON_parse
         (\<lambda>request. stream_reply
            [utf8_encode (wire_text [content_event (ascii ''Hel'')]),
             utf8_encode (wire_text [content_event (ascii ''lo''), finish_event (ascii ''stop'')]),
             utf8_encode (wire_text [done_event])])
         ready_ChatBot) = Completed"
  using streaming_reconstruction[of ready_ChatBot empty_server "''10.0.0.1''" 0 0 hello_deltas
      "\<lparr>x_ratelimit_limit = Some 1, x_ratelimit_remaining = Some 0, x_ratelimit_reset = Some 60000\<rparr>"
      "\<lparr>writableEnded = True, writable = True, sent = hello_events, refused = []\<rparr>"
      "\<lambda>request. stream_reply
            [utf8_encode (wire_text [content_event (ascii ''Hel'')]),
             utf8_encode (wire_text [content_event (ascii ''lo''), finish_event (ascii ''stop'')]),
             utf8_encode (wire_text [done_event])]"
      "\<lparr>status = 200, header_limit = Some 1, header_remaining = Some 0,
               header_reset = Some 60000, json_error = Inl None,
               body_reader = Some ([utf8_encode (wire_text [content_event (ascii ''Hel'')]),
             utf8_encode (wire_text [content_event (ascii ''lo''), finish_event (ascii ''stop'')]),
             utf8_encode (wire_text [done_event])], StreamClosed)\<rparr>"
      "[utf8_encode (wire_text [content_event (ascii ''Hel'')]),
             utf8_encode (wire_text [content_event (ascii ''lo''), finish_event (ascii ''stop'')]),
             utf8_encode (wire_text [done_event])]"
      StreamClosed
      "[[content_event (ascii ''Hel'')], [content_event (ascii ''lo''), finish_event (ascii ''stop'')], [done_event]]"]
  by (simp add: hello_events_def hello_deltas_def delta_texts_def relay_defs
        post_chat_stream_def chat_route_def admit_def load_or_create_def roll_window_def
        chatOptions_def empty_server_def
        json_defs utf8_defs client_defs)

text \<open>
  C1, as the claim states it, fails: the provider says \<open>Hel\<close>, \<open>lo\<close> and stops, the
  server sends the four events, and the reader yields their bytes in two chunks that
  cut the first event after ten bytes. The controller ends in state \<open>Completed\<close> with
  the assistant message \<open>lo\<close>, not \<open>Hello\<close>.
\<close>

theorem split_event_is_lost:
  "hello_events =
     [content_event (ascii ''Hel''), content_event (ascii ''lo''), finish_event (ascii ''stop''),
      done_event]
   \<and> concat [take 10 hello_stream, drop 10 hello_stream] = utf8_encode (wire_text hello_events)
   \<and> decode hello_stream = wire_text hello_events
   \<and> messages (fst (sendMessage JSON_parse
         (\<lambda>request. stream_reply [take 10 hello_stream, drop 10 hello_stream]) ready_ChatBot)) =
       [\<lparr>role = User, content = ascii ''hi''\<rparr>, \<lparr>role = Assistant, content = ascii ''lo''\<rparr>]
   \<and> terminal_state (sendMessage JSON_parse
         (\<lambda>request. stream_reply [take 10 hello_stream, drop 10 hello_stream]) ready_ChatBot) =
       Completed
   \<and> concat (delta_texts hello_deltas) = ascii ''Hello''"
  by (simp add: hello_stream_def hello_events_def hello_deltas_def delta_texts_def relay_defs
        terminal_state_def json_defs utf8_defs client_defs)

end
